theory Spec2Isabelle
  imports Complex_Main
begin

section \<open>Python values used by the video assembler\<close>

text \<open>
  Python ints are \<open>int\<close>. A Python float is an IEEE double, a rational number; the
  result of an operation on floats is the exact result rounded to the nearest double, ties
  to even (\<open>fl\<close>). The rounding is modelled wherever the code truncates the result to an
  integer (the pixel sizes, the loop count of the background): there it can change the
  result by one. Times (durations, start times) and the caption height are added and
  multiplied exactly. The exponent range of \<open>fl\<close> is unbounded: overflow and subnormal
  numbers are not modelled.
\<close>

type_synonym path = string

text \<open>The exceptions that can leave the modelled code, named after the call that raises.\<close>

datatype py_error =
    VideoFileError path
  | AudioFileError path
  | TextClipError
  | GetFrameError
  | WriteVideofileError
  | IndexError
  | ZeroDivisionError
  | TypeError
  | ValueError

text \<open>The number of binary digits of a positive int.\<close>

function bits :: "int \<Rightarrow> int" where
  "bits n = (if n \<le> 0 then 0 else 1 + bits (n div 2))"
  by pat_completeness auto
termination
  by (relation "measure nat") auto

declare bits.simps [simp del]

text \<open>The binary exponent of a positive rational \<open>x\<close>: \<open>2 ^ e \<le> x < 2 ^ (e + 1)\<close>.\<close>

definition exponent :: "rat \<Rightarrow> int" where
  "exponent x =
     (case quotient_of x of (p, q) \<Rightarrow>
        (let e = bits p - bits q
         in if 2 powi e \<le> x then e else e - 1))"

text \<open>Rounding to the nearest integer, a tie to the even one.\<close>

definition round_even :: "rat \<Rightarrow> int" where
  "round_even y =
     (let f = \<lfloor>y\<rfloor>; r = y - of_int f
      in if r < 1 / 2 then f else if 1 / 2 < r then f + 1
         else if even f then f else f + 1)"

text \<open>The nearest double: 53 significant binary digits.\<close>

definition fl :: "rat \<Rightarrow> rat" where
  "fl x =
     (if x = 0 then 0
      else (let a = \<bar>x\<bar>; q = 2 powi (exponent a - 52)
            in sgn x * (of_int (round_even (a / q)) * q)))"

text \<open>An int converted to a float, and the float operations \<open>*\<close>, \<open>+\<close>, \<open>-\<close>.\<close>

definition py_float :: "int \<Rightarrow> rat" where
  "py_float i = fl (of_int i)"

definition float_mul :: "rat \<Rightarrow> rat \<Rightarrow> rat" where
  "float_mul a b = fl (a * b)"

definition float_add :: "rat \<Rightarrow> rat \<Rightarrow> rat" where
  "float_add a b = fl (a + b)"

definition float_sub :: "rat \<Rightarrow> rat \<Rightarrow> rat" where
  "float_sub a b = fl (a - b)"

text \<open>\<open>int(x)\<close> on a float truncates toward zero.\<close>

definition py_int :: "rat \<Rightarrow> int" where
  "py_int x = (if 0 \<le> x then \<lfloor>x\<rfloor> else \<lceil>x\<rceil>)"

text \<open>
  \<open>a / b\<close> on numbers raises ZeroDivisionError when \<open>b\<close> is zero, and is the rounded
  quotient otherwise (for two ints, the quotient of the ints themselves is rounded).
\<close>

definition py_truediv :: "rat \<Rightarrow> rat \<Rightarrow> py_error + rat" where
  "py_truediv a b = (if b = 0 then Inl ZeroDivisionError else Inr (fl (a / b)))"

text \<open>\<open>a / 2\<close>.\<close>

definition half :: "rat \<Rightarrow> rat" where
  "half a = fl (a / 2)"

text \<open>
  Subscripting a list with an int: \<open>xs[i]\<close> reads position \<open>i\<close>, or position
  \<open>len(xs) + i\<close> for \<open>i\<close> below zero, and raises IndexError outside the list.
\<close>

definition py_getitem :: "'a list \<Rightarrow> int \<Rightarrow> py_error + 'a" where
  "py_getitem xs i =
     (if 0 \<le> i \<and> i < int (length xs) then Inr (xs ! nat i)
      else if i < 0 \<and> - int (length xs) \<le> i then Inr (xs ! nat (int (length xs) + i))
      else Inl IndexError)"

text \<open>
  The number of elements selected by the slice \<open>[a:b]\<close> on an axis of length \<open>n\<close>:
  negative bounds count from the end, and both bounds are clamped to the axis.
\<close>

definition slice_bound :: "int \<Rightarrow> int \<Rightarrow> int" where
  "slice_bound n i = (if i < 0 then max (i + n) 0 else min i n)"

definition slice_len :: "int \<Rightarrow> int \<Rightarrow> int \<Rightarrow> int" where
  "slice_len n a b = max 0 (slice_bound n b - slice_bound n a)"

text \<open>\<open>x or d\<close> on a number: \<open>d\<close> when \<open>x\<close> is zero.\<close>

definition num_or :: "rat \<Rightarrow> rat \<Rightarrow> rat" where
  "num_or x d = (if x = 0 then d else x)"

section \<open>Data model\<close>

record ScriptSegment =
  seg_type :: string
  seg_voice :: string
  seg_text :: string
  display_text :: "string option"

record GeneratedScript =
  story_id :: string
  title :: string
  subreddit :: string
  segments :: "ScriptSegment list"

record AudioSegment =
  segment_index :: int
  as_segment_type :: string
  as_voice :: string
  as_text :: string
  audio_path :: path
  duration :: rat

record CharacterVideo =
  cv_segment_index :: int
  cv_audio_path :: path
  video_path :: path
  cv_duration :: rat

record VideoConfig =
  width :: int
  height :: int
  fps :: int
  font :: string
  title_font_size :: int
  story_font_size :: int
  commentary_font_size :: int

text \<open>The constants of the \<open>config\<close> module that the assembler reads.\<close>

definition VIDEO_WIDTH :: int where "VIDEO_WIDTH = 1080"
definition VIDEO_HEIGHT :: int where "VIDEO_HEIGHT = 1920"
definition VIDEO_FPS :: int where "VIDEO_FPS = 30"
definition FONT_PATH :: string where "FONT_PATH = ''C:/Windows/Fonts/arial.ttf''"
definition FONT_SIZE_TITLE :: int where "FONT_SIZE_TITLE = 48"
definition FONT_SIZE_STORY :: int where "FONT_SIZE_STORY = 36"
definition FONT_SIZE_COMMENTARY :: int where "FONT_SIZE_COMMENTARY = 32"
definition TEXT_STROKE_COLOR :: string where "TEXT_STROKE_COLOR = ''black''"
definition TEXT_STROKE_WIDTH :: int where "TEXT_STROKE_WIDTH = 2"
definition CHARACTER_POSITION :: string where "CHARACTER_POSITION = ''bottom_right''"
definition CHARACTER_SIZE :: rat where "CHARACTER_SIZE = fl (35 / 100)"

definition default_VideoConfig :: VideoConfig where
  "default_VideoConfig =
     \<lparr>width = VIDEO_WIDTH, height = VIDEO_HEIGHT, fps = VIDEO_FPS, font = FONT_PATH,
      title_font_size = FONT_SIZE_TITLE, story_font_size = FONT_SIZE_STORY,
      commentary_font_size = FONT_SIZE_COMMENTARY\<rparr>"

section \<open>Clips of the video library\<close>

text \<open>
  The clip objects of the video library, with the attributes the assembler reads or sets.
  A position is a name (\<open>"center"\<close>) or a pair of coordinates, each a name or a number.
  A duration of \<open>None\<close> is a clip without an end. Every clip carries the list of the
  library methods that were called to make it from its source, in order and with their
  arguments (\<open>clip_calls\<close>): a looped clip differs from one that was only trimmed.
\<close>

datatype coord = Named string | Num rat

datatype position = Single coord | Pair coord coord

datatype clip_source = FromFile path | SolidColor nat nat nat

datatype clip_call =
    ResizeHeight int
  | ResizeWidth int
  | ResizeTo int int
  | CropX rat rat
  | CropY rat rat
  | Loop int
  | Subclip rat rat
  | SetStart rat
  | SetDuration rat
  | SetPosition position
  | WithoutAudio

record video_clip =
  clip_source :: clip_source
  clip_w :: int
  clip_h :: int
  clip_duration :: "rat option"
  clip_start :: rat
  clip_pos :: position
  clip_audio :: bool
  clip_calls :: "clip_call list"

record audio_clip =
  ac_path :: path
  ac_duration :: rat
  ac_start :: rat

record text_clip =
  tc_text :: string
  tc_fontsize :: int
  tc_color :: string
  tc_font :: "string option"
  tc_bg_color :: "string option"
  tc_stroke_color :: "string option"
  tc_stroke_width :: int
  tc_method :: string
  tc_size :: "int option"
  tc_align :: string
  tc_duration :: "rat option"
  tc_start :: rat
  tc_pos :: position
  tc_margin :: "(int \<times> int \<times> int \<times> int) option"

text \<open>\<open>ColorClip(size, color, duration)\<close>.\<close>

definition ColorClip :: "int \<times> int \<Rightarrow> nat \<times> nat \<times> nat \<Rightarrow> rat \<Rightarrow> video_clip" where
  "ColorClip sz col d =
     (case col of (r, g, b) \<Rightarrow>
        \<lparr>clip_source = SolidColor r g b, clip_w = fst sz, clip_h = snd sz,
         clip_duration = Some d, clip_start = 0,
         clip_pos = Pair (Num 0) (Num 0), clip_audio = False, clip_calls = []\<rparr>)"

text \<open>
  \<open>clip.resize(height=hh)\<close> and \<open>clip.resize(width=ww)\<close> keep the aspect ratio: the new
  size is \<open>[w * hh / h, hh]\<close> (resp. \<open>[ww, h * ww / w]\<close>), and the resizer truncates
  both entries with \<open>int\<close>. \<open>clip.resize((ww, hh))\<close> sets both.
\<close>

definition resize_height :: "int \<Rightarrow> video_clip \<Rightarrow> py_error + video_clip" where
  "resize_height hh c =
     (case py_truediv (of_int (clip_w c * hh)) (of_int (clip_h c)) of
        Inl e \<Rightarrow> Inl e
      | Inr nw \<Rightarrow>
          Inr (c\<lparr>clip_w := py_int nw, clip_h := hh,
                 clip_calls := clip_calls c @ [ResizeHeight hh]\<rparr>))"

definition resize_width :: "int \<Rightarrow> video_clip \<Rightarrow> py_error + video_clip" where
  "resize_width ww c =
     (case py_truediv (of_int (clip_h c * ww)) (of_int (clip_w c)) of
        Inl e \<Rightarrow> Inl e
      | Inr nh \<Rightarrow>
          Inr (c\<lparr>clip_w := ww, clip_h := py_int nh,
                 clip_calls := clip_calls c @ [ResizeWidth ww]\<rparr>))"

definition resize_to :: "int \<times> int \<Rightarrow> video_clip \<Rightarrow> video_clip" where
  "resize_to sz c =
     c\<lparr>clip_w := fst sz, clip_h := snd sz,
       clip_calls := clip_calls c @ [ResizeTo (fst sz) (snd sz)]\<rparr>"

text \<open>
  \<open>clip.crop(x1=a, x2=b)\<close> keeps the columns \<open>[int(a or 0) : int(b or w)]\<close> of every frame
  and all rows; \<open>clip.crop(y1=a, y2=b)\<close> keeps the rows \<open>[int(a or 0) : int(b or h)]\<close>
  and all columns.
\<close>

definition crop_x :: "rat \<Rightarrow> rat \<Rightarrow> video_clip \<Rightarrow> video_clip" where
  "crop_x x1 x2 c =
     c\<lparr>clip_w := slice_len (clip_w c) (py_int (num_or x1 0))
                     (py_int (num_or x2 (of_int (clip_w c)))),
       clip_h := slice_len (clip_h c) 0 (clip_h c),
       clip_calls := clip_calls c @ [CropX x1 x2]\<rparr>"

definition crop_y :: "rat \<Rightarrow> rat \<Rightarrow> video_clip \<Rightarrow> video_clip" where
  "crop_y y1 y2 c =
     c\<lparr>clip_w := slice_len (clip_w c) 0 (clip_w c),
       clip_h := slice_len (clip_h c) (py_int (num_or y1 0))
                     (py_int (num_or y2 (of_int (clip_h c)))),
       clip_calls := clip_calls c @ [CropY y1 y2]\<rparr>"

text \<open>
  \<open>clip.loop(n=k)\<close> repeats the clip: the result lasts \<open>k\<close> times the clip's duration
  when \<open>k\<close> and that product are not zero, and has no end otherwise. It requires a clip
  with a duration.
\<close>

definition loop :: "int \<Rightarrow> video_clip \<Rightarrow> py_error + video_clip" where
  "loop k c =
     (case clip_duration c of
        None \<Rightarrow> Inl ValueError
      | Some s \<Rightarrow>
          Inr (c\<lparr>clip_duration :=
                   (if k \<noteq> 0 \<and> of_int k * s \<noteq> 0 then Some (of_int k * s) else None),
                 clip_calls := clip_calls c @ [Loop k]\<rparr>))"

text \<open>
  \<open>clip.subclip(0, t_end)\<close>: raises when the clip's duration is negative (the start 0
  lies after it); a negative \<open>t_end\<close> counts from the end of a clip with a duration;
  the result lasts \<open>t_end - 0\<close>.
\<close>

definition subclip0 :: "rat \<Rightarrow> video_clip \<Rightarrow> py_error + video_clip" where
  "subclip0 t_end c =
     (let called = clip_calls c @ [Subclip 0 t_end]
      in case clip_duration c of
           None \<Rightarrow> Inr (c\<lparr>clip_duration := Some (t_end - 0), clip_calls := called\<rparr>)
         | Some s \<Rightarrow>
             if 0 > s then Inl ValueError
             else if t_end < 0 then
               Inr (c\<lparr>clip_duration := Some (s + t_end - 0), clip_calls := called\<rparr>)
             else Inr (c\<lparr>clip_duration := Some (t_end - 0), clip_calls := called\<rparr>))"

definition set_start :: "rat \<Rightarrow> video_clip \<Rightarrow> video_clip" where
  "set_start t c = c\<lparr>clip_start := t, clip_calls := clip_calls c @ [SetStart t]\<rparr>"

definition set_duration :: "rat \<Rightarrow> video_clip \<Rightarrow> video_clip" where
  "set_duration d c =
     c\<lparr>clip_duration := Some d, clip_calls := clip_calls c @ [SetDuration d]\<rparr>"

definition set_position :: "position \<Rightarrow> video_clip \<Rightarrow> video_clip" where
  "set_position p c = c\<lparr>clip_pos := p, clip_calls := clip_calls c @ [SetPosition p]\<rparr>"

definition without_audio :: "video_clip \<Rightarrow> video_clip" where
  "without_audio c = c\<lparr>clip_audio := False, clip_calls := clip_calls c @ [WithoutAudio]\<rparr>"

section \<open>The environment of an assembly run\<close>

text \<open>
  What the assembler finds outside itself: the background videos of the configured
  directory, the pick of \<open>random.choice\<close>, the files that open as video or audio clips
  (\<open>None\<close>: the constructor raises), the text clips that the renderer can draw, the
  result of \<open>textwrap.fill\<close>, the frames that can be read, the lists of audio clips
  that the library composes (its constructor takes the maximum over the clips, which
  raises ValueError on an empty list), and whether the encoder and the frame writer
  succeed.
\<close>

record env =
  background_videos :: "path list"
  random_pick :: nat
  VideoFileClip :: "path \<Rightarrow> video_clip option"
  AudioFileClip :: "path \<Rightarrow> audio_clip option"
  TextClip_ok :: "text_clip \<Rightarrow> bool"
  textwrap_fill :: "string \<Rightarrow> nat \<Rightarrow> string"
  get_frame_ok :: "video_clip \<Rightarrow> rat \<Rightarrow> bool"
  CompositeAudioClip_ok :: "audio_clip list \<Rightarrow> bool"
  write_videofile_ok :: bool
  save_frame_ok :: bool

text \<open>\<open>random.choice(xs)\<close> on a non-empty list: some element of it.\<close>

definition random_choice :: "env \<Rightarrow> 'a list \<Rightarrow> 'a" where
  "random_choice e xs = xs ! (random_pick e mod length xs)"

section \<open>VideoAssembler\<close>

subsection \<open>Background footage\<close>

definition resize_and_crop :: "VideoConfig \<Rightarrow> video_clip \<Rightarrow> py_error + video_clip" where
  "resize_and_crop cfg clip =
     (case py_truediv (of_int (width cfg)) (of_int (height cfg)) of
        Inl e \<Rightarrow> Inl e
      | Inr target_ratio \<Rightarrow>
     (case py_truediv (of_int (clip_w clip)) (of_int (clip_h clip)) of
        Inl e \<Rightarrow> Inl e
      | Inr clip_ratio \<Rightarrow>
          if clip_ratio > target_ratio then
            (let new_height = height cfg;
                 new_width = py_int (float_mul clip_ratio (py_float new_height))
             in case resize_height new_height clip of
                  Inl e \<Rightarrow> Inl e
                | Inr clip1 \<Rightarrow>
                    (let x_center = half (of_int new_width);
                         x1 = float_sub x_center (half (of_int (width cfg)))
                     in Inr (crop_x x1 (float_add x1 (py_float (width cfg))) clip1)))
          else
            (let new_width = width cfg
             in case py_truediv (py_float new_width) clip_ratio of
                  Inl e \<Rightarrow> Inl e
                | Inr q \<Rightarrow>
                    (let new_height = py_int q
                     in case resize_width new_width clip of
                          Inl e \<Rightarrow> Inl e
                        | Inr clip1 \<Rightarrow>
                            (let y_center = half (of_int new_height);
                                 y1 = float_sub y_center (half (of_int (height cfg)))
                             in Inr (crop_y y1 (float_add y1 (py_float (height cfg)))
                                       clip1))))))"

text \<open>
  The loop count of \<open>_get_background_clip\<close>: \<open>int(duration / clip.duration) + 1\<close>.
\<close>

definition loops_needed :: "rat \<Rightarrow> rat \<Rightarrow> py_error + int" where
  "loops_needed d s =
     (case py_truediv d s of Inl e \<Rightarrow> Inl e | Inr q \<Rightarrow> Inr (py_int q + 1))"

text \<open>
  The part of \<open>_get_background_clip\<close> after the resize: loop if needed, then trim to
  the exact duration. Comparing a clip without an end with a number raises TypeError.
\<close>

definition loop_and_trim :: "rat \<Rightarrow> video_clip \<Rightarrow> py_error + video_clip" where
  "loop_and_trim d clip =
     (case clip_duration clip of
        None \<Rightarrow> Inl TypeError
      | Some s \<Rightarrow>
          if s < d then
            (case loops_needed d s of
               Inl e \<Rightarrow> Inl e
             | Inr n \<Rightarrow>
                 (case loop n clip of
                    Inl e \<Rightarrow> Inl e
                  | Inr clip1 \<Rightarrow> subclip0 d clip1))
          else subclip0 d clip)"

definition get_background_clip :: "env \<Rightarrow> VideoConfig \<Rightarrow> rat \<Rightarrow> py_error + video_clip" where
  "get_background_clip e cfg d =
     (if background_videos e = [] then
        Inr (ColorClip (width cfg, height cfg) (30, 30, 40) d)
      else
        (let bg_path = random_choice e (background_videos e)
         in case VideoFileClip e bg_path of
              None \<Rightarrow> Inl (VideoFileError bg_path)
            | Some clip \<Rightarrow>
                (case resize_and_crop cfg clip of
                   Inl err \<Rightarrow> Inl err
                 | Inr clip1 \<Rightarrow> loop_and_trim d clip1)))"

subsection \<open>Captions\<close>

text \<open>\<open>s.split('\n')\<close> and \<open>'\n'.join(lines)\<close>.\<close>

fun split_nl :: "string \<Rightarrow> string list" where
  "split_nl [] = [[]]"
| "split_nl (c # cs) =
     (if c = CHR 0x0A then [] # split_nl cs
      else (case split_nl cs of [] \<Rightarrow> [[c]] | l # ls \<Rightarrow> (c # l) # ls))"

fun join_nl :: "string list \<Rightarrow> string" where
  "join_nl [] = []"
| "join_nl [l] = l"
| "join_nl (l # ls) = l @ CHR 0x0A # join_nl ls"

text \<open>The styling of \<open>_create_text_clip\<close>: font size, colour, position, line width.\<close>

definition text_style :: "VideoConfig \<Rightarrow> string \<Rightarrow> string \<Rightarrow> int \<times> string \<times> position \<times> nat" where
  "text_style cfg segment_type voice =
     (if segment_type = ''intro'' \<or> segment_type = ''outro'' then
        (title_font_size cfg, ''white'', Pair (Named ''center'') (Named ''center''), 30)
      else if voice = ''commentator'' then
        (commentary_font_size cfg, ''#FFD700'',
         Pair (Named ''center'') (Num (of_int (height cfg) * (75 / 100))), 35)
      else
        (story_font_size cfg, ''white'', Pair (Named ''center'') (Named ''center''), 35))"

definition truncate_lines :: "string \<Rightarrow> string" where
  "truncate_lines wrapped_text =
     (let lines = split_nl wrapped_text
      in if length lines > 8 then
           (let lines8 = take 8 lines
            in join_nl (butlast lines8 @ [last lines8 @ ''...'']))
         else wrapped_text)"

definition create_text_clip ::
    "env \<Rightarrow> VideoConfig \<Rightarrow> string \<Rightarrow> rat \<Rightarrow> string \<Rightarrow> string \<Rightarrow> py_error + text_clip" where
  "create_text_clip e cfg txt d segment_type voice =
     (case text_style cfg segment_type voice of (font_size, color, pos, max_width) \<Rightarrow>
        (let wrapped_text = truncate_lines (textwrap_fill e txt max_width);
             styled =
               \<lparr>tc_text = wrapped_text, tc_fontsize = font_size, tc_color = color,
                tc_font = Some (font cfg), tc_bg_color = None,
                tc_stroke_color = Some TEXT_STROKE_COLOR,
                tc_stroke_width = TEXT_STROKE_WIDTH, tc_method = ''caption'',
                tc_size = Some (width cfg - 80), tc_align = ''center'',
                tc_duration = None, tc_start = 0,
                tc_pos = Pair (Num 0) (Num 0), tc_margin = None\<rparr>;
             plain =
               \<lparr>tc_text = wrapped_text, tc_fontsize = font_size, tc_color = color,
                tc_font = None, tc_bg_color = None, tc_stroke_color = None,
                tc_stroke_width = 1, tc_method = ''label'',
                tc_size = None, tc_align = ''center'',
                tc_duration = None, tc_start = 0,
                tc_pos = Pair (Num 0) (Num 0), tc_margin = None\<rparr>
         in if TextClip_ok e styled then
              Inr (styled\<lparr>tc_duration := Some d, tc_pos := pos\<rparr>)
            else if TextClip_ok e plain then
              Inr (plain\<lparr>tc_duration := Some d, tc_pos := Single (Named ''center'')\<rparr>)
            else Inl TextClipError))"

definition create_subreddit_badge :: "env \<Rightarrow> VideoConfig \<Rightarrow> string \<Rightarrow> rat \<Rightarrow> text_clip option" where
  "create_subreddit_badge e cfg sub d =
     (let badge_text = ''r/'' @ sub;
          badge =
            \<lparr>tc_text = badge_text, tc_fontsize = 28, tc_color = ''white'',
             tc_font = Some (font cfg), tc_bg_color = Some ''#FF4500'',
             tc_stroke_color = None, tc_stroke_width = 1, tc_method = ''label'',
             tc_size = None, tc_align = ''center'',
             tc_duration = None, tc_start = 0,
             tc_pos = Pair (Num 0) (Num 0), tc_margin = None\<rparr>
      in if TextClip_ok e badge then
           Some (badge\<lparr>tc_duration := Some d, tc_pos := Pair (Num 20) (Num 20),
                       tc_margin := Some (10, 10, 5, 5)\<rparr>)
         else None)"

subsection \<open>Character overlays\<close>

definition get_character_position :: "VideoConfig \<Rightarrow> int \<times> int \<Rightarrow> int \<times> int" where
  "get_character_position cfg char_clip_size =
     (case char_clip_size of (char_w, char_h) \<Rightarrow>
        (let margin = 20;
             bottom_right = (width cfg - char_w - margin, height cfg - char_h - margin);
             positions =
               [(''bottom_right'', bottom_right),
                (''bottom_left'', (margin, height cfg - char_h - margin)),
                (''top_right'', (width cfg - char_w - margin, margin + 60)),
                (''top_left'', (margin + 200, margin)),
                (''center_bottom'', ((width cfg - char_w) div 2, height cfg - char_h - margin))]
         in case map_of positions CHARACTER_POSITION of
              Some p \<Rightarrow> p
            | None \<Rightarrow> bottom_right))"

text \<open>
  \<open>_create_character_clip\<close>: every exception raised inside is caught and \<open>None\<close> is
  returned.
\<close>

definition create_character_clip ::
    "env \<Rightarrow> VideoConfig \<Rightarrow> path \<Rightarrow> rat \<Rightarrow> rat \<Rightarrow> video_clip option" where
  "create_character_clip e cfg character_video_path d start_time =
     (case VideoFileClip e character_video_path of
        None \<Rightarrow> None
      | Some char_clip \<Rightarrow>
          (let target_width = py_int (float_mul (py_float (width cfg)) CHARACTER_SIZE)
           in case py_truediv (of_int target_width) (of_int (clip_w char_clip)) of
                Inl err \<Rightarrow> None
              | Inr scale_factor \<Rightarrow>
                  (let target_height =
                         py_int (float_mul (py_float (clip_h char_clip)) scale_factor);
                       char_clip1 = resize_to (target_width, target_height) char_clip;
                       char_clip2 = set_start start_time char_clip1
                   in case clip_duration char_clip2 of
                        None \<Rightarrow> None
                      | Some native \<Rightarrow>
                          (let char_clip3 = set_duration (min native d) char_clip2;
                               p = get_character_position cfg (target_width, target_height);
                               char_clip4 =
                                 set_position (Pair (Num (of_int (fst p))) (Num (of_int (snd p))))
                                   char_clip3
                           in Some (without_audio char_clip4)))))"

subsection \<open>Assembly\<close>

definition gap_duration :: rat where
  "gap_duration = 3 / 10"

text \<open>The index of character videos by segment index: a later entry replaces an earlier one.\<close>

definition build_char_video_map :: "CharacterVideo list option \<Rightarrow> (int \<rightharpoonup> CharacterVideo)" where
  "build_char_video_map character_videos =
     (case character_videos of
        None \<Rightarrow> Map.empty
      | Some cvs \<Rightarrow>
          if cvs = [] then Map.empty
          else foldl (\<lambda>m cv. m(cv_segment_index cv \<mapsto> cv)) Map.empty cvs)"

text \<open>The variables that the loop over the audio segments updates.\<close>

record loop_state =
  audio_clips :: "audio_clip list"
  text_clips :: "text_clip list"
  character_clips :: "video_clip list"
  current_time :: rat

text \<open>\<open>script_seg.display_text or script_seg.text\<close>.\<close>

definition display_or_text :: "ScriptSegment \<Rightarrow> string" where
  "display_or_text script_seg =
     (case display_text script_seg of
        None \<Rightarrow> seg_text script_seg
      | Some t \<Rightarrow> if t = [] then seg_text script_seg else t)"

text \<open>
  The character overlay of one audio segment: the clip made from the entry that the index
  holds for the segment, when there is one and the clip could be made.
\<close>

definition character_overlay ::
    "env \<Rightarrow> VideoConfig \<Rightarrow> (int \<rightharpoonup> CharacterVideo) \<Rightarrow> AudioSegment \<Rightarrow> rat \<Rightarrow> video_clip list" where
  "character_overlay e cfg char_video_map audio_seg t =
     (case char_video_map (segment_index audio_seg) of
        None \<Rightarrow> []
      | Some char_vid \<Rightarrow>
          (case create_character_clip e cfg (video_path char_vid) (duration audio_seg) t of
             None \<Rightarrow> []
           | Some char_clip \<Rightarrow> [char_clip]))"

text \<open>One iteration of the loop of \<open>assemble_video\<close>.\<close>

definition segment_step ::
    "env \<Rightarrow> VideoConfig \<Rightarrow> GeneratedScript \<Rightarrow> (int \<rightharpoonup> CharacterVideo) \<Rightarrow>
     loop_state \<Rightarrow> AudioSegment \<Rightarrow> py_error + loop_state" where
  "segment_step e cfg script char_video_map st audio_seg =
     (case py_getitem (segments script) (segment_index audio_seg) of
        Inl err \<Rightarrow> Inl err
      | Inr script_seg \<Rightarrow>
     (case AudioFileClip e (audio_path audio_seg) of
        None \<Rightarrow> Inl (AudioFileError (audio_path audio_seg))
      | Some ac \<Rightarrow>
     (case create_text_clip e cfg (display_or_text script_seg) (duration audio_seg)
             (seg_type script_seg) (seg_voice script_seg) of
        Inl err \<Rightarrow> Inl err
      | Inr tc \<Rightarrow>
          Inr \<lparr>audio_clips = audio_clips st @ [ac\<lparr>ac_start := current_time st\<rparr>],
               text_clips = text_clips st @ [tc\<lparr>tc_start := current_time st\<rparr>],
               character_clips =
                 character_clips st
                   @ character_overlay e cfg char_video_map audio_seg (current_time st),
               current_time = current_time st + (duration audio_seg + gap_duration)\<rparr>)))"

fun assemble_loop ::
    "env \<Rightarrow> VideoConfig \<Rightarrow> GeneratedScript \<Rightarrow> (int \<rightharpoonup> CharacterVideo) \<Rightarrow>
     loop_state \<Rightarrow> AudioSegment list \<Rightarrow> py_error + loop_state" where
  "assemble_loop e cfg script char_video_map st [] = Inr st"
| "assemble_loop e cfg script char_video_map st (audio_seg # rest) =
     (case segment_step e cfg script char_video_map st audio_seg of
        Inl err \<Rightarrow> Inl err
      | Inr st1 \<Rightarrow> assemble_loop e cfg script char_video_map st1 rest)"

text \<open>
  The total duration computed at the start of \<open>assemble_video\<close>: the sum of the
  durations, taken from left to right starting at 0, plus the gap times \<open>len - 1\<close>.
\<close>

definition total_duration :: "AudioSegment list \<Rightarrow> rat" where
  "total_duration audio_segments =
     foldl (\<lambda>acc seg. acc + duration seg) 0 audio_segments
       + gap_duration * of_int (int (length audio_segments) - 1)"

text \<open>
  The values of \<open>current_time\<close> at the head of the iterations of the loop, from the
  value \<open>t\<close> at the head of the first.
\<close>

fun start_times :: "rat \<Rightarrow> AudioSegment list \<Rightarrow> rat list" where
  "start_times t [] = []"
| "start_times t (audio_seg # rest) =
     t # start_times (t + (duration audio_seg + gap_duration)) rest"

text \<open>The composite clip handed to the encoder.\<close>

datatype layer = VideoLayer video_clip | TextLayer text_clip

record composite =
  comp_layers :: "layer list"
  comp_size :: "int \<times> int"
  comp_audio :: "audio_clip list"
  comp_duration :: rat

text \<open>
  The layers of a composite, read back: the first layer is the background, the other
  video layers are the character overlays, the text layers are the badge and the captions.
\<close>

fun video_layers :: "layer list \<Rightarrow> video_clip list" where
  "video_layers [] = []"
| "video_layers (VideoLayer c # ls) = c # video_layers ls"
| "video_layers (TextLayer t # ls) = video_layers ls"

fun text_layers :: "layer list \<Rightarrow> text_clip list" where
  "text_layers [] = []"
| "text_layers (VideoLayer c # ls) = text_layers ls"
| "text_layers (TextLayer t # ls) = t # text_layers ls"

definition character_layers :: "composite \<Rightarrow> video_clip list" where
  "character_layers final_video = video_layers (tl (comp_layers final_video))"

text \<open>
  \<open>assemble_video\<close>: \<open>Inr\<close> of the composite that was written to the output path when
  the method returns True, \<open>Inl\<close> of the exception that leaves it otherwise.
\<close>

definition assemble_video ::
    "env \<Rightarrow> VideoConfig \<Rightarrow> GeneratedScript \<Rightarrow> AudioSegment list \<Rightarrow>
     CharacterVideo list option \<Rightarrow> py_error + composite" where
  "assemble_video e cfg script audio_segments character_videos =
     (let total = total_duration audio_segments
      in case get_background_clip e cfg total of
           Inl err \<Rightarrow> Inl err
         | Inr background \<Rightarrow>
             (let char_video_map = build_char_video_map character_videos
              in case assemble_loop e cfg script char_video_map
                        \<lparr>audio_clips = [], text_clips = [], character_clips = [],
                         current_time = 0\<rparr> audio_segments of
                   Inl err \<Rightarrow> Inl err
                 | Inr st \<Rightarrow>
                     (let texts =
                            (case create_subreddit_badge e cfg (subreddit script) total of
                               None \<Rightarrow> text_clips st
                             | Some badge \<Rightarrow> badge # text_clips st);
                          all_clips =
                            [VideoLayer background] @ map VideoLayer (character_clips st)
                              @ map TextLayer texts;
                          final_video =
                            \<lparr>comp_layers = all_clips, comp_size = (width cfg, height cfg),
                             comp_audio = audio_clips st, comp_duration = total\<rparr>
                      in if \<not> CompositeAudioClip_ok e (audio_clips st) then Inl ValueError
                         else if write_videofile_ok e then Inr final_video
                         else Inl WriteVideofileError)))"

subsection \<open>Thumbnail\<close>

datatype frame = FrameAt video_clip rat | SolidFrame int int nat nat nat

text \<open>
  The first part of \<open>create_thumbnail\<close>, before its \<open>try\<close> block: the background
  frame.
\<close>

definition thumbnail_background :: "env \<Rightarrow> VideoConfig \<Rightarrow> py_error + frame" where
  "thumbnail_background e cfg =
     (if background_videos e \<noteq> [] then
        (let bg_path = random_choice e (background_videos e)
         in case VideoFileClip e bg_path of
              None \<Rightarrow> Inl (VideoFileError bg_path)
            | Some bg_clip \<Rightarrow>
                (case resize_and_crop cfg bg_clip of
                   Inl err \<Rightarrow> Inl err
                 | Inr bg_clip1 \<Rightarrow>
                     if get_frame_ok e bg_clip1 1 then Inr (FrameAt bg_clip1 1)
                     else Inl GetFrameError))
      else Inr (SolidFrame (height cfg) (width cfg) 30 30 40))"

definition create_thumbnail :: "env \<Rightarrow> VideoConfig \<Rightarrow> GeneratedScript \<Rightarrow> py_error + bool" where
  "create_thumbnail e cfg script =
     (case thumbnail_background e cfg of
        Inl err \<Rightarrow> Inl err
      | Inr bg_frame \<Rightarrow>
          (let title_text =
                 (if length (title script) > 50 then take 50 (title script) @ ''...''
                  else title script);
               wrapped_title = textwrap_fill e title_text 20;
               title_clip =
                 \<lparr>tc_text = wrapped_title, tc_fontsize = 60, tc_color = ''white'',
                  tc_font = Some (font cfg), tc_bg_color = None,
                  tc_stroke_color = Some ''black'', tc_stroke_width = 3,
                  tc_method = ''caption'', tc_size = Some (width cfg - 100),
                  tc_align = ''center'', tc_duration = None, tc_start = 0,
                  tc_pos = Pair (Num 0) (Num 0), tc_margin = None\<rparr>;
               badge =
                 \<lparr>tc_text = ''r/'' @ subreddit script, tc_fontsize = 40, tc_color = ''white'',
                  tc_font = None, tc_bg_color = Some ''#FF4500'',
                  tc_stroke_color = None, tc_stroke_width = 1,
                  tc_method = ''label'', tc_size = None,
                  tc_align = ''center'', tc_duration = None, tc_start = 0,
                  tc_pos = Pair (Num 0) (Num 0), tc_margin = None\<rparr>
           in if TextClip_ok e title_clip then
                if TextClip_ok e badge then
                  if save_frame_ok e then Inr True else Inr False
                else Inr False
              else Inr False))"

section \<open>Example inputs\<close>

text \<open>A landscape background source, wider than the vertical target frame.\<close>

definition landscape_source :: video_clip where
  "landscape_source =
     \<lparr>clip_source = FromFile ''parkour.mp4'', clip_w = 1920, clip_h = 1080,
      clip_duration = Some 10, clip_start = 0, clip_pos = Pair (Num 0) (Num 0),
      clip_audio = True, clip_calls = []\<rparr>"

text \<open>
  A script of three segments with its audio (3, 5 and 4 seconds), and two character
  videos that name the same commentary segment.
\<close>

definition example_script :: GeneratedScript where
  "example_script =
     \<lparr>story_id = ''abc123'', title = ''AITA for testing my video pipeline'',
      subreddit = ''AmItheAsshole'',
      segments =
        [\<lparr>seg_type = ''intro'', seg_voice = ''narrator'', seg_text = ''Today on Reddit'',
          display_text = Some ''Today on Reddit''\<rparr>,
         \<lparr>seg_type = ''story'', seg_voice = ''narrator'', seg_text = ''So this happened'',
          display_text = Some ''So this happened''\<rparr>,
         \<lparr>seg_type = ''commentary'', seg_voice = ''commentator'', seg_text = ''Wow'',
          display_text = Some ''Wow''\<rparr>]\<rparr>"

definition example_audio :: "AudioSegment list" where
  "example_audio =
     [\<lparr>segment_index = 0, as_segment_type = ''intro'', as_voice = ''narrator'',
       as_text = ''Today on Reddit'', audio_path = ''segment_000.mp3'', duration = 3\<rparr>,
      \<lparr>segment_index = 1, as_segment_type = ''story'', as_voice = ''narrator'',
       as_text = ''So this happened'', audio_path = ''segment_001.mp3'', duration = 5\<rparr>,
      \<lparr>segment_index = 2, as_segment_type = ''commentary'', as_voice = ''commentator'',
       as_text = ''Wow'', audio_path = ''segment_002.mp3'', duration = 4\<rparr>]"

definition example_characters :: "CharacterVideo list" where
  "example_characters =
     [\<lparr>cv_segment_index = 2, cv_audio_path = ''segment_002.mp3'',
       video_path = ''character_a.mp4'', cv_duration = 4\<rparr>,
      \<lparr>cv_segment_index = 2, cv_audio_path = ''segment_002.mp3'',
       video_path = ''character_b.mp4'', cv_duration = 4\<rparr>]"

text \<open>A character clip of 2.5 seconds, and a run in which every resource is available.\<close>

definition character_source :: video_clip where
  "character_source =
     \<lparr>clip_source = FromFile ''character_b.mp4'', clip_w = 512, clip_h = 512,
      clip_duration = Some (5 / 2), clip_start = 0, clip_pos = Pair (Num 0) (Num 0),
      clip_audio = True, clip_calls = []\<rparr>"

definition example_audio_files :: "path \<Rightarrow> audio_clip option" where
  "example_audio_files p =
     (if p = ''segment_000.mp3'' then Some \<lparr>ac_path = p, ac_duration = 3, ac_start = 0\<rparr>
      else if p = ''segment_001.mp3'' then Some \<lparr>ac_path = p, ac_duration = 5, ac_start = 0\<rparr>
      else if p = ''segment_002.mp3'' then Some \<lparr>ac_path = p, ac_duration = 4, ac_start = 0\<rparr>
      else None)"

definition studio_env :: env where
  "studio_env =
     \<lparr>background_videos = [''parkour.mp4''], random_pick = 0,
      VideoFileClip = (\<lambda>p. if p = ''parkour.mp4'' then Some landscape_source
                          else if p = ''character_b.mp4'' then Some character_source
                          else None),
      AudioFileClip = example_audio_files,
      TextClip_ok = (\<lambda>t. True), textwrap_fill = (\<lambda>s n. s),
      get_frame_ok = (\<lambda>c t. True),
      CompositeAudioClip_ok = (\<lambda>cs. cs \<noteq> []), write_videofile_ok = True,
      save_frame_ok = True\<rparr>"

text \<open>A run whose only background video cannot be opened.\<close>

definition unreadable_background_env :: env where
  "unreadable_background_env =
     \<lparr>background_videos = [''broken.mp4''], random_pick = 0,
      VideoFileClip = (\<lambda>p. None),
      AudioFileClip = example_audio_files,
      TextClip_ok = (\<lambda>t. True), textwrap_fill = (\<lambda>s n. s),
      get_frame_ok = (\<lambda>c t. True),
      CompositeAudioClip_ok = (\<lambda>cs. cs \<noteq> []), write_videofile_ok = True,
      save_frame_ok = True\<rparr>"

text \<open>The commentary segment of the example alone.\<close>

definition commentary_audio :: "AudioSegment list" where
  "commentary_audio =
     [\<lparr>segment_index = 2, as_segment_type = ''commentary'', as_voice = ''commentator'',
       as_text = ''Wow'', audio_path = ''segment_002.mp3'', duration = 4\<rparr>]"

text \<open>
  A run without background videos, and a run in which no character video can be opened and
  the styled caption renderer fails while plain labels can be drawn.
\<close>

definition no_background_env :: env where
  "no_background_env =
     \<lparr>background_videos = [], random_pick = 0,
      VideoFileClip = (\<lambda>p. None),
      AudioFileClip = example_audio_files,
      TextClip_ok = (\<lambda>t. True), textwrap_fill = (\<lambda>s n. s),
      get_frame_ok = (\<lambda>c t. True),
      CompositeAudioClip_ok = (\<lambda>cs. cs \<noteq> []), write_videofile_ok = True,
      save_frame_ok = True\<rparr>"

definition faulty_env :: env where
  "faulty_env =
     \<lparr>background_videos = [''parkour.mp4''], random_pick = 0,
      VideoFileClip = (\<lambda>p. if p = ''parkour.mp4'' then Some landscape_source else None),
      AudioFileClip = example_audio_files,
      TextClip_ok = (\<lambda>t. tc_method t = ''label''), textwrap_fill = (\<lambda>s n. s),
      get_frame_ok = (\<lambda>c t. True),
      CompositeAudioClip_ok = (\<lambda>cs. cs \<noteq> []), write_videofile_ok = True,
      save_frame_ok = True\<rparr>"

text \<open>What the second of these runs hands to the encoder for the commentary segment.\<close>

definition faulty_run_composite :: composite where
  "faulty_run_composite =
     \<lparr>comp_layers =
        [VideoLayer
           \<lparr>clip_source = FromFile ''parkour.mp4'', clip_w = 1080, clip_h = 1920,
            clip_duration = Some 4, clip_start = 0, clip_pos = Pair (Num 0) (Num 0),
            clip_audio = True,
            clip_calls =
              [ResizeHeight 1920, CropX (2333 / 2) (4493 / 2), Subclip 0 4]\<rparr>,
         TextLayer
           \<lparr>tc_text = ''r/AmItheAsshole'', tc_fontsize = 28, tc_color = ''white'',
            tc_font = Some ''C:/Windows/Fonts/arial.ttf'', tc_bg_color = Some ''#FF4500'',
            tc_stroke_color = None, tc_stroke_width = 1, tc_method = ''label'',
            tc_size = None, tc_align = ''center'', tc_duration = Some 4, tc_start = 0,
            tc_pos = Pair (Num 20) (Num 20), tc_margin = Some (10, 10, 5, 5)\<rparr>,
         TextLayer
           \<lparr>tc_text = ''Wow'', tc_fontsize = 32, tc_color = ''#FFD700'',
            tc_font = None, tc_bg_color = None, tc_stroke_color = None,
            tc_stroke_width = 1, tc_method = ''label'', tc_size = None,
            tc_align = ''center'', tc_duration = Some 4, tc_start = 0,
            tc_pos = Single (Named ''center''), tc_margin = None\<rparr>],
      comp_size = (1080, 1920),
      comp_audio = [\<lparr>ac_path = ''segment_002.mp3'', ac_duration = 4, ac_start = 0\<rparr>],
      comp_duration = 4\<rparr>"

text \<open>A portrait background source, narrower than the target frame.\<close>

definition portrait_source :: video_clip where
  "portrait_source =
     \<lparr>clip_source = FromFile ''tower.mp4'', clip_w = 720, clip_h = 1600,
      clip_duration = Some 30, clip_start = 0, clip_pos = Pair (Num 0) (Num 0),
      clip_audio = True, clip_calls = []\<rparr>"

text \<open>
  A frame of 1280 by 854 pixels, and a background source of exactly that size.
\<close>

definition sd_config :: VideoConfig where
  "sd_config =
     \<lparr>width = 1280, height = 854, fps = VIDEO_FPS, font = FONT_PATH,
      title_font_size = FONT_SIZE_TITLE, story_font_size = FONT_SIZE_STORY,
      commentary_font_size = FONT_SIZE_COMMENTARY\<rparr>"

definition sd_source :: video_clip where
  "sd_source =
     \<lparr>clip_source = FromFile ''street.mp4'', clip_w = 1280, clip_h = 854,
      clip_duration = Some 20, clip_start = 0, clip_pos = Pair (Num 0) (Num 0),
      clip_audio = True, clip_calls = []\<rparr>"

text \<open>A commentary segment of 2 seconds, shorter than the character clip.\<close>

definition short_commentary :: AudioSegment where
  "short_commentary =
     \<lparr>segment_index = 2, as_segment_type = ''commentary'', as_voice = ''commentator'',
      as_text = ''Wow'', audio_path = ''reaction.mp3'', duration = 2\<rparr>"

text \<open>A run in which no text can be drawn.\<close>

definition mute_env :: env where
  "mute_env =
     \<lparr>background_videos = [], random_pick = 0,
      VideoFileClip = (\<lambda>p. None),
      AudioFileClip = example_audio_files,
      TextClip_ok = (\<lambda>t. False), textwrap_fill = (\<lambda>s n. s),
      get_frame_ok = (\<lambda>c t. True),
      CompositeAudioClip_ok = (\<lambda>cs. cs \<noteq> []), write_videofile_ok = True,
      save_frame_ok = True\<rparr>"

section \<open>Properties\<close>

subsection \<open>Truncation\<close>

lemma py_int_nonneg: "0 \<le> x \<Longrightarrow> py_int x = \<lfloor>x\<rfloor>"
  by (simp add: py_int_def)

subsection \<open>Rounding\<close>

lemma bits_pos: "0 < n \<Longrightarrow> 0 < bits n"
proof -
  assume n: "0 < n"
  have "0 \<le> bits k" for k
    by (induction k rule: bits.induct) (subst bits.simps, auto)
  then have "0 \<le> bits (n div 2)" .
  then show ?thesis using n by (subst bits.simps) simp
qed

lemma bits_bounds:
  "0 < n \<Longrightarrow> 2 powi (bits n - 1) \<le> (of_int n :: rat) \<and> (of_int n :: rat) < 2 powi (bits n)"
proof (induction n rule: bits.induct)
  case (1 n)
  show ?case
  proof (cases "n = 1")
    case True
    have "bits (1::int) = 1" by code_simp
    with True show ?thesis by simp
  next
    case False
    with "1.prems" have n2: "0 < n div 2" "\<not> n \<le> 0" by auto
    from "1.IH" [OF n2(2) n2(1)]
    have lo: "2 powi (bits (n div 2) - 1) \<le> (of_int (n div 2) :: rat)"
      and hi: "(of_int (n div 2) :: rat) < 2 powi (bits (n div 2))" by auto
    have b: "bits n = 1 + bits (n div 2)" using n2(2) by (subst bits.simps) simp
    have p1: "(2::rat) powi (1 + bits (n div 2) - 1) = 2 * 2 powi (bits (n div 2) - 1)"
      by (simp add: power_int_diff)
    have p2: "(2::rat) powi (1 + bits (n div 2)) = 2 * 2 powi (bits (n div 2))"
      by (simp add: power_int_add)
    have d1: "2 * (n div 2) \<le> n" by simp
    have "(of_int (2 * (n div 2)) :: rat) \<le> of_int n" using d1 by (simp only: of_int_le_iff)
    then have lo2: "2 * (of_int (n div 2) :: rat) \<le> of_int n" by simp
    have bp: "0 < bits (n div 2)" using bits_pos [OF n2(1)] .
    then obtain k where k: "bits (n div 2) = int k" using nonneg_int_cases
      by (metis less_le)
    have "n div 2 < 2 ^ k"
    proof -
      have "(of_int (n div 2) :: rat) < of_int (2 ^ k)" using hi by (simp add: k)
      then show ?thesis by (simp only: of_int_less_iff)
    qed
    then have "n div 2 + 1 \<le> 2 ^ k" by simp
    then have "n < 2 * 2 ^ k" by linarith
    then have "(of_int n :: rat) < of_int (2 * 2 ^ k)" by (simp only: of_int_less_iff)
    then have hi2: "(of_int n :: rat) < 2 * 2 powi (bits (n div 2))" by (simp add: k)
    show ?thesis unfolding b p1 p2 using lo lo2 hi2 by auto
  qed
qed


lemma exponent_lower:
  assumes "0 < x"
  shows "2 powi (exponent x) \<le> x"
proof -
  obtain p q where pq: "quotient_of x = (p, q)" by (cases "quotient_of x") auto
  have q: "0 < q" using quotient_of_denom_pos [OF pq] .
  have x: "x = of_int p / of_int q" using quotient_of_div [OF pq] .
  have p: "0 < p" using assms q x by (simp add: zero_less_divide_iff)
  define e where "e = bits p - bits q"
  have ex: "exponent x = (if 2 powi e \<le> x then e else e - 1)"
    by (simp add: exponent_def pq e_def Let_def)
  show ?thesis
  proof (cases "2 powi e \<le> x")
    case True
    then show ?thesis by (simp add: ex)
  next
    case False
    have lo: "2 powi (bits p - 1) \<le> (of_int p :: rat)" using bits_bounds [OF p] by simp
    have hi: "(of_int q :: rat) < 2 powi (bits q)" using bits_bounds [OF q] by simp
    have "(2::rat) powi (e - 1) = 2 powi (bits p - 1) / 2 powi (bits q)"
      by (simp add: e_def power_int_diff [symmetric] algebra_simps)
    also have "\<dots> \<le> of_int p / 2 powi (bits q)"
      using lo by (simp add: divide_right_mono)
    also have "\<dots> \<le> of_int p / of_int q"
      using hi p q by (intro divide_left_mono) simp_all
    finally have "(2::rat) powi (e - 1) \<le> x" unfolding x .
    then show ?thesis using False by (simp add: ex)
  qed
qed

lemma round_even_lower: "of_int m \<le> y \<Longrightarrow> m \<le> round_even y"
proof -
  assume "of_int m \<le> y"
  then have "m \<le> \<lfloor>y\<rfloor>" by (simp add: le_floor_iff)
  then show ?thesis by (simp add: round_even_def Let_def)
qed

lemma round_even_upper: "y \<le> of_int m \<Longrightarrow> round_even y \<le> m"
proof -
  assume a: "y \<le> of_int m"
  show ?thesis
  proof (cases "y = of_int \<lfloor>y\<rfloor>")
    case True
    then have "round_even y = \<lfloor>y\<rfloor>" by (simp add: round_even_def Let_def)
    moreover have "\<lfloor>y\<rfloor> \<le> m" using a by (simp add: floor_le_iff)
    ultimately show ?thesis by simp
  next
    case False
    have "of_int \<lfloor>y\<rfloor> \<le> y" by simp
    with False have "of_int \<lfloor>y\<rfloor> < y" by linarith
    with a have "(of_int \<lfloor>y\<rfloor> :: rat) < of_int m" by linarith
    then have "\<lfloor>y\<rfloor> < m" by (simp only: of_int_less_iff)
    then have "\<lfloor>y\<rfloor> + 1 \<le> m" by simp
    then show ?thesis by (simp add: round_even_def Let_def)
  qed
qed

lemma fl_of_pos:
  assumes "0 < x"
  shows "fl x = of_int (round_even (x / 2 powi (exponent x - 52))) * 2 powi (exponent x - 52)"
  using assms by (simp add: fl_def Let_def)

lemma fl_pos:
  assumes "0 < x"
  shows "0 < fl x"
proof -
  define q :: rat where "q = 2 powi (exponent x - 52)"
  have q: "0 < q" by (simp add: q_def)
  have "(2::rat) powi (exponent x) = 2 ^ 52 * q"
    by (simp add: q_def power_int_diff)
  then have "2 ^ 52 * q \<le> x" using exponent_lower [OF assms] by simp
  then have "(2 ^ 52 :: rat) \<le> x / q" using q by (simp add: pos_le_divide_eq)
  then have "(of_int (2 ^ 52) :: rat) \<le> x / q" by simp
  then have "2 ^ 52 \<le> round_even (x / q)" by (rule round_even_lower)
  moreover have "(0::int) < 2 ^ 52" by simp
  ultimately have "0 < round_even (x / q)" by linarith
  then show ?thesis using q by (simp add: fl_of_pos [OF assms] q_def [symmetric])
qed

text \<open>Rounding never crosses an integer below \<open>2 ^ 53\<close>.\<close>

lemma int_on_grid:
  assumes "e \<le> 52"
  shows "\<exists>j. (of_int k :: rat) / 2 powi (e - 52) = of_int j"
proof -
  have "(of_int k :: rat) / 2 powi (e - 52) = of_int k * 2 powi (52 - e)"
    by (simp add: power_int_diff field_simps)
  also have "\<dots> = of_int k * 2 ^ nat (52 - e)"
    using assms by (simp add: power_int_def)
  also have "\<dots> = of_int (k * 2 ^ nat (52 - e))" by simp
  finally show ?thesis by blast
qed

lemma fl_lower_int:
  assumes x: "0 < x" and k: "of_int k \<le> x" "k \<le> 2 ^ 53"
  shows "of_int k \<le> fl x"
proof -
  define e where "e = exponent x"
  define q :: rat where "q = 2 powi (e - 52)"
  have q: "0 < q" by (simp add: q_def)
  have f: "fl x = of_int (round_even (x / q)) * q"
    by (simp add: fl_of_pos [OF x] q_def e_def)
  show ?thesis
  proof (cases "e \<le> 52")
    case True
    from int_on_grid [OF True, of k] obtain j where j: "(of_int k :: rat) / q = of_int j"
      by (auto simp: q_def)
    have "(of_int k :: rat) / q \<le> x / q" using k(1) q by (simp add: divide_right_mono)
    then have "j \<le> round_even (x / q)" unfolding j by (rule round_even_lower)
    then have "(of_int j :: rat) * q \<le> of_int (round_even (x / q)) * q"
      using q by simp
    moreover have "(of_int j :: rat) * q = of_int k" using j q by (simp add: field_simps)
    ultimately show ?thesis by (simp add: f)
  next
    case False
    then have e53: "53 \<le> e" by simp
    have "(2::rat) powi e = 2 ^ 52 * q" by (simp add: q_def power_int_diff)
    then have "2 ^ 52 * q \<le> x" using exponent_lower [OF x] by (simp add: e_def)
    then have "(of_int (2 ^ 52) :: rat) \<le> x / q" using q by (simp add: pos_le_divide_eq)
    then have "2 ^ 52 \<le> round_even (x / q)" by (rule round_even_lower)
    then have "(of_int (2 ^ 52) :: rat) \<le> of_int (round_even (x / q))"
      by (simp only: of_int_le_iff)
    then have "(2 ^ 52 :: rat) * q \<le> of_int (round_even (x / q)) * q"
      using q by simp
    moreover have "(2 ^ 52 :: rat) * q = 2 powi e" by (simp add: q_def power_int_diff)
    moreover have "(2::rat) powi 53 \<le> 2 powi e" using e53 by (intro power_int_increasing) simp_all
    moreover have "(of_int k :: rat) \<le> 2 powi 53"
    proof -
      have "(of_int k :: rat) \<le> of_int (2 ^ 53)" using k(2) by (simp only: of_int_le_iff)
      then show ?thesis by simp
    qed
    ultimately show ?thesis by (simp add: f)
  qed
qed

lemma fl_upper_int:
  assumes x: "0 < x" and k: "x \<le> of_int k" "k \<le> 2 ^ 53"
  shows "fl x \<le> of_int k"
proof -
  define e where "e = exponent x"
  define q :: rat where "q = 2 powi (e - 52)"
  have q: "0 < q" by (simp add: q_def)
  have f: "fl x = of_int (round_even (x / q)) * q"
    by (simp add: fl_of_pos [OF x] q_def e_def)
  have e53: "e \<le> 53"
  proof (rule ccontr)
    assume "\<not> e \<le> 53"
    then have "54 \<le> e" by simp
    then have "(2::rat) powi 54 \<le> 2 powi e" by (intro power_int_increasing) simp_all
    moreover have "2 powi e \<le> x" using exponent_lower [OF x] by (simp add: e_def)
    moreover have "(of_int k :: rat) \<le> of_int (2 ^ 53)" using k(2) by (simp only: of_int_le_iff)
    ultimately show False using k(1) by simp
  qed
  show ?thesis
  proof (cases "e \<le> 52")
    case True
    from int_on_grid [OF True, of k] obtain j where j: "(of_int k :: rat) / q = of_int j"
      by (auto simp: q_def)
    have "x / q \<le> (of_int k :: rat) / q" using k(1) q by (simp add: divide_right_mono)
    then have "round_even (x / q) \<le> j" unfolding j by (rule round_even_upper)
    then have "(of_int (round_even (x / q)) :: rat) * q \<le> of_int j * q"
      using q by simp
    moreover have "(of_int j :: rat) * q = of_int k" using j q by (simp add: field_simps)
    ultimately show ?thesis by (simp add: f)
  next
    case False
    with e53 have e: "e = 53" by simp
    have q2: "q = 2" by (simp add: q_def e)
    have "(2::rat) powi e \<le> x" using exponent_lower [OF x] by (simp add: e_def)
    then have "(2 ^ 53 :: rat) \<le> x" by (simp add: e)
    moreover have "(of_int k :: rat) \<le> of_int (2 ^ 53)" using k(2) by (simp only: of_int_le_iff)
    ultimately have xk: "x = 2 ^ 53" "of_int k = (2 ^ 53 :: rat)" using k(1) by simp_all
    have "x / q = of_int (2 ^ 52)" by (simp add: xk q2)
    then have "round_even (x / q) \<le> 2 ^ 52" by (intro round_even_upper) simp
    then have "(of_int (round_even (x / q)) :: rat) \<le> of_int (2 ^ 52)"
      by (simp only: of_int_le_iff)
    then have "(of_int (round_even (x / q)) :: rat) * q \<le> 2 ^ 52 * q" using q by simp
    then have "fl x \<le> 2 ^ 52 * q" by (simp only: f)
    moreover have "2 ^ 52 * q = (of_int k :: rat)" by (simp add: q2 xk(2))
    ultimately show ?thesis by simp
  qed
qed


lemma exponent_upper:
  assumes "0 < x"
  shows "x < 2 powi (exponent x + 1)"
proof -
  obtain p q where pq: "quotient_of x = (p, q)" by (cases "quotient_of x") auto
  have q: "0 < q" using quotient_of_denom_pos [OF pq] .
  have x: "x = of_int p / of_int q" using quotient_of_div [OF pq] .
  have p: "0 < p" using assms q x by (simp add: zero_less_divide_iff)
  define e where "e = bits p - bits q"
  have ex: "exponent x = (if 2 powi e \<le> x then e else e - 1)"
    by (simp add: exponent_def pq e_def Let_def)
  show ?thesis
  proof (cases "2 powi e \<le> x")
    case True
    have hi: "(of_int p :: rat) < 2 powi (bits p)" using bits_bounds [OF p] by simp
    have lo: "2 powi (bits q - 1) \<le> (of_int q :: rat)" using bits_bounds [OF q] by simp
    have "(of_int p :: rat) / of_int q < 2 powi (bits p) / of_int q"
      using hi q by (simp add: divide_strict_right_mono)
    also have "\<dots> \<le> 2 powi (bits p) / 2 powi (bits q - 1)"
      using lo q by (intro divide_left_mono) (simp_all add: zero_less_mult_iff)
    also have "\<dots> = 2 powi (e + 1)"
      by (simp add: e_def power_int_diff [symmetric] algebra_simps)
    finally have "x < 2 powi (e + 1)" unfolding x .
    then show ?thesis using True by (simp add: ex)
  next
    case False
    then show ?thesis by (simp add: ex)
  qed
qed


lemma round_even_near: "\<bar>of_int (round_even y) - y\<bar> \<le> 1 / 2"
proof -
  have a: "of_int \<lfloor>y\<rfloor> \<le> y" by simp
  have b: "y < of_int \<lfloor>y\<rfloor> + 1" by linarith
  show ?thesis
    using a b by (simp add: round_even_def Let_def abs_le_iff)
qed

text \<open>The rounded value lies within half a unit in the last place.\<close>

lemma fl_near:
  assumes "0 < x"
  shows "\<bar>fl x - x\<bar> \<le> 2 powi (exponent x - 53)"
proof -
  define q :: rat where "q = 2 powi (exponent x - 52)"
  have q: "0 < q" by (simp add: q_def)
  have f: "fl x = of_int (round_even (x / q)) * q"
    by (simp add: fl_of_pos [OF assms] q_def)
  have "fl x - x = (of_int (round_even (x / q)) - x / q) * q"
    using q by (simp add: f field_simps)
  then have "\<bar>fl x - x\<bar> = \<bar>of_int (round_even (x / q)) - x / q\<bar> * q"
    using q by (simp add: abs_mult)
  also have "\<dots> \<le> (1 / 2) * q"
    using round_even_near [of "x / q"] q by (intro mult_right_mono) simp_all
  also have "\<dots> = 2 powi (exponent x - 53)"
    by (simp add: q_def power_int_diff)
  finally show ?thesis .
qed

subsection \<open>Crop to fill\<close>

text \<open>
  \<open>_resize_and_crop\<close> returns for every source with positive dimensions and a frame
  height that is not zero, and keeps the source and its duration.
\<close>

lemma resize_and_crop_total:
  assumes "0 < clip_w clip" "0 < clip_h clip" "height cfg \<noteq> 0"
  shows "\<exists>r. resize_and_crop cfg clip = Inr r \<and> clip_duration r = clip_duration clip
           \<and> clip_source r = clip_source clip"
proof -
  have "(0::rat) < of_int (clip_w clip) / of_int (clip_h clip)" using assms by simp
  then have "0 < fl (of_int (clip_w clip) / of_int (clip_h clip))" by (rule fl_pos)
  then have ratio: "fl (of_int (clip_w clip) / of_int (clip_h clip)) \<noteq> 0" by simp
  show ?thesis
    using assms ratio
    by (simp add: resize_and_crop_def py_truediv_def resize_height_def resize_width_def
        crop_x_def crop_y_def Let_def)
qed

text \<open>With the default frame the two example sources are cropped to 1080 by 1920.\<close>

lemma resize_and_crop_default_examples:
  "resize_and_crop default_VideoConfig landscape_source
     = Inr (landscape_source\<lparr>clip_w := 1080, clip_h := 1920,
              clip_calls := [ResizeHeight 1920, CropX (2333 / 2) (4493 / 2)]\<rparr>)
   \<and> resize_and_crop default_VideoConfig portrait_source
     = Inr (portrait_source\<lparr>clip_w := 1080, clip_h := 1920,
              clip_calls := [ResizeWidth 1080, CropY 240 2160]\<rparr>)"
  by code_simp

text \<open>
  C6. \<open>_resize_and_crop\<close> with a frame of 1280 by 854 pixels on a source of exactly
  that size. The two ratios are the same double, so the source is fitted by width: the
  resize leaves it at 1280 by 854. The height computed for the centred window is
  \<open>int(1280 / (1280 / 854))\<close>; the double quotient lies just below 854, so it is 853;
  the window starts at \<open>- 0.5\<close> and ends at \<open>853.5\<close>, and the crop keeps the rows 0 to
  853. The clip returned is 1280 by 853: one row short of the frame.
\<close>

theorem resize_and_crop_one_row_short:
  "width sd_config = 1280 \<and> height sd_config = 854
   \<and> clip_w sd_source = 1280 \<and> clip_h sd_source = 854
   \<and> py_truediv 1280 854 = Inr (6750125905192313 / 4503599627370496)
   \<and> py_truediv (py_float 1280) (6750125905192313 / 4503599627370496)
       = Inr (7511863440965631 / 8796093022208)
   \<and> py_int (7511863440965631 / 8796093022208) = 853
   \<and> resize_width 1280 sd_source = Inr (sd_source\<lparr>clip_calls := [ResizeWidth 1280]\<rparr>)
   \<and> resize_and_crop sd_config sd_source
       = Inr (sd_source\<lparr>clip_w := 1280, clip_h := 853,
                clip_calls := [ResizeWidth 1280, CropY (- (1 / 2)) (1707 / 2)]\<rparr>)"
  by code_simp

subsection \<open>Looping the background\<close>

text \<open>
  The loop count \<open>int(d / s) + 1\<close> covers \<open>d\<close>. It exceeds the least count that does
  by at most one: the rounded quotient can be the next integer above the exact one.
\<close>

lemma loops_needed_cover:
  assumes "0 < s" "s < d" "d < 2 ^ 53 * s"
  shows "\<exists>n. loops_needed d s = Inr n \<and> 2 \<le> n \<and> d < of_int n * s \<and> of_int (n - 2) * s \<le> d"
proof -
  define q where "q = d / s"
  define k where "k = \<lfloor>q\<rfloor>"
  define m where "m = \<lfloor>fl q\<rfloor>"
  have q1: "1 \<le> q" using assms by (simp add: q_def)
  then have q0: "0 < q" by simp
  have q53: "q < 2 ^ 53" using assms by (simp add: q_def pos_divide_less_eq)
  have kq: "of_int k \<le> q" by (simp add: k_def)
  have qk: "q < of_int (k + 1)" by (simp add: k_def floor_less_iff [symmetric] del: of_int_add)
  have k1: "1 \<le> k" using q1 by (simp add: k_def le_floor_iff)
  have "q < of_int (2 ^ 53)" using q53 by simp
  then have "k < 2 ^ 53" unfolding k_def by (simp only: floor_less_iff)
  then have kb: "k \<le> 2 ^ 53" "k + 1 \<le> 2 ^ 53" by simp_all
  have lo: "of_int k \<le> fl q" using fl_lower_int [OF q0 kq kb(1)] .
  have qk1: "q \<le> of_int (k + 1)" using qk by simp
  have hi: "fl q \<le> of_int (k + 1)" using fl_upper_int [OF q0 qk1 kb(2)] .
  have km: "k \<le> m" using lo by (simp add: m_def le_floor_iff)
  have mk: "m \<le> k + 1"
  proof -
    have "of_int m \<le> fl q" by (simp add: m_def)
    with hi have "(of_int m :: rat) \<le> of_int (k + 1)" by linarith
    then show ?thesis by (simp only: of_int_le_iff)
  qed
  have f0: "0 \<le> fl q" using fl_pos [OF q0] by simp
  have ln: "loops_needed d s = Inr (m + 1)"
    using assms(1) f0 by (simp add: loops_needed_def py_truediv_def py_int_nonneg q_def m_def)
  have two: "2 \<le> m + 1" using k1 km by simp
  have "(of_int (k + 1) :: rat) \<le> of_int (m + 1)" using km by simp
  with qk have "q < of_int (m + 1)" by linarith
  then have up: "d < of_int (m + 1) * s"
    using assms(1) by (simp add: q_def pos_divide_less_eq)
  have "(of_int (m + 1 - 2) :: rat) \<le> of_int k" using mk by simp
  with kq have "of_int (m + 1 - 2) \<le> q" by linarith
  then have "of_int (m + 1 - 2) * s \<le> q * s"
    using assms(1) by (intro mult_right_mono) simp_all
  moreover have "q * s = d" using assms(1) by (simp add: q_def)
  ultimately have dn: "of_int (m + 1 - 2) * s \<le> d" by simp
  show ?thesis using ln two up dn by blast
qed

text \<open>
  A source of 36.6 seconds and a required duration of 1098 seconds: 30 loops cover it,
  the code makes 31.
\<close>

lemma loops_needed_one_more:
  "loops_needed 1098 (fl (366 / 10)) = Inr 31 \<and> 1098 < 30 * fl (366 / 10)"
  by code_simp

text \<open>
  C5. When a background video is chosen whose source lasts \<open>s > 0\<close> and the required
  duration \<open>d\<close> exceeds \<open>s\<close> (by a factor below \<open>2 ^ 53\<close>), \<open>_get_background_clip\<close>
  calls \<open>loop\<close> on the resized source with \<open>n = int(d / s) + 1\<close>, and \<open>n\<close> whole
  runs of the source cover \<open>d\<close>, with less than two runs to spare; it then calls
  \<open>subclip(0, d)\<close>. The clip returned is the resized source with exactly these two calls
  added, and it lasts exactly \<open>d\<close>.
\<close>

theorem background_loop_covers_duration:
  assumes bg: "background_videos e \<noteq> []"
    and load: "VideoFileClip e (random_choice e (background_videos e)) = Some src"
    and dims: "0 < clip_w src" "0 < clip_h src" "height cfg \<noteq> 0"
    and s: "clip_duration src = Some s" "0 < s" "s < d" "d < 2 ^ 53 * s"
  shows "\<exists>n r. resize_and_crop cfg src = Inr r \<and> loops_needed d s = Inr n
           \<and> d < of_int n * s \<and> of_int (n - 2) * s \<le> d
           \<and> get_background_clip e cfg d
               = Inr (r\<lparr>clip_duration := Some d,
                        clip_calls := clip_calls r @ [Loop n, Subclip 0 d]\<rparr>)"
proof -
  obtain r where r: "resize_and_crop cfg src = Inr r" "clip_duration r = clip_duration src"
    using resize_and_crop_total [OF dims] by blast
  have rs: "clip_duration r = Some s" using r(2) s(1) by simp
  obtain n where n: "loops_needed d s = Inr n" "2 \<le> n" "d < of_int n * s"
      "of_int (n - 2) * s \<le> d"
    using loops_needed_cover [OF s(2,3,4)] by blast
  have d0: "0 < d" using s by simp
  have ns: "of_int n * s \<noteq> 0" "n \<noteq> 0" "\<not> of_int n * s < 0" "\<not> d < 0"
    using n(2,3) d0 by auto
  have "loop_and_trim d r
      = Inr (r\<lparr>clip_duration := Some d, clip_calls := clip_calls r @ [Loop n, Subclip 0 d]\<rparr>)"
    using rs s(3) n(1) ns by (simp add: loop_and_trim_def loop_def subclip0_def Let_def)
  then have "get_background_clip e cfg d
      = Inr (r\<lparr>clip_duration := Some d, clip_calls := clip_calls r @ [Loop n, Subclip 0 d]\<rparr>)"
    using bg load r(1) by (simp add: get_background_clip_def Let_def)
  with r(1) n show ?thesis by blast
qed

theorem background_loop_covers_duration_witness:
  "background_videos studio_env \<noteq> []
     \<and> VideoFileClip studio_env (random_choice studio_env (background_videos studio_env))
          = Some landscape_source
     \<and> 0 < clip_w landscape_source \<and> 0 < clip_h landscape_source
     \<and> height default_VideoConfig \<noteq> 0
     \<and> clip_duration landscape_source = Some 10 \<and> (0::rat) < 10 \<and> (10::rat) < 22
     \<and> (22::rat) < 2 ^ 53 * 10
     \<and> loops_needed 22 10 = Inr 3
     \<and> (\<exists>c. get_background_clip studio_env default_VideoConfig 22 = Inr c
            \<and> clip_duration c = Some 22
            \<and> clip_calls c
                 = [ResizeHeight 1920, CropX (2333 / 2) (4493 / 2), Loop 3, Subclip 0 22])"
proof -
  have bg: "background_videos studio_env \<noteq> []" by (simp add: studio_env_def)
  have load: "VideoFileClip studio_env (random_choice studio_env (background_videos studio_env))
      = Some landscape_source"
    by (simp add: studio_env_def random_choice_def)
  have dims: "0 < clip_w landscape_source" "0 < clip_h landscape_source"
      "height default_VideoConfig \<noteq> 0"
    by (simp_all add: landscape_source_def default_VideoConfig_def VIDEO_HEIGHT_def)
  have s: "clip_duration landscape_source = Some 10" "(0::rat) < 10" "(10::rat) < 22"
      "(22::rat) < 2 ^ 53 * 10"
    by (simp_all add: landscape_source_def)
  have n: "loops_needed 22 10 = Inr 3"
    by code_simp
  have rc: "resize_and_crop default_VideoConfig landscape_source
      = Inr (landscape_source\<lparr>clip_w := 1080, clip_h := 1920,
               clip_calls := [ResizeHeight 1920, CropX (2333 / 2) (4493 / 2)]\<rparr>)"
    by code_simp
  from background_loop_covers_duration [OF bg load dims s] n rc
  have "get_background_clip studio_env default_VideoConfig 22
      = Inr (landscape_source\<lparr>clip_w := 1080, clip_h := 1920,
               clip_calls := [ResizeHeight 1920, CropX (2333 / 2) (4493 / 2)],
               clip_duration := Some 22,
               clip_calls := [ResizeHeight 1920, CropX (2333 / 2) (4493 / 2)]
                               @ [Loop 3, Subclip 0 22]\<rparr>)"
    by auto
  then have "\<exists>c. get_background_clip studio_env default_VideoConfig 22 = Inr c
      \<and> clip_duration c = Some 22
      \<and> clip_calls c = [ResizeHeight 1920, CropX (2333 / 2) (4493 / 2), Loop 3, Subclip 0 22]"
    by simp
  with bg load dims s n show ?thesis by blast
qed

subsection \<open>Caption styling\<close>

lemma create_text_clip_Inr:
  assumes "create_text_clip e cfg body d segment_type voice = Inr c"
  shows "tc_fontsize c = fst (text_style cfg segment_type voice)
       \<and> tc_color c = fst (snd (text_style cfg segment_type voice))
       \<and> (tc_method c = ''caption''
              \<and> tc_pos c = fst (snd (snd (text_style cfg segment_type voice)))
            \<or> tc_method c = ''label'' \<and> tc_pos c = Single (Named ''center''))
       \<and> tc_duration c = Some d"
proof -
  obtain fs col pos mw where st: "text_style cfg segment_type voice = (fs, col, pos, mw)"
    by (cases "text_style cfg segment_type voice") auto
  from assms show ?thesis
    unfolding create_text_clip_def st by (auto simp: Let_def split: if_splits)
qed

text \<open>
  C8. The caption styling is a function of the segment type and the voice (and the
  configuration): intro and outro segments get the title font size, white, the screen
  centre; other segments spoken by the commentator get the commentary font size, gold
  and the lower third at 75 percent of the frame height; all remaining segments get the
  story font size, white, the screen centre. A caption rendered with the styled method
  carries exactly that font size, colour and position, and two captions made for the same
  type and voice by the same method agree on all three, whatever their text, duration or
  environment.
\<close>

theorem caption_style_table:
  "(segment_type = ''intro'' \<or> segment_type = ''outro'' \<longrightarrow>
      text_style cfg segment_type voice
        = (title_font_size cfg, ''white'', Pair (Named ''center'') (Named ''center''), 30))
   \<and> (segment_type \<noteq> ''intro'' \<and> segment_type \<noteq> ''outro'' \<and> voice = ''commentator'' \<longrightarrow>
      text_style cfg segment_type voice
        = (commentary_font_size cfg, ''#FFD700'',
           Pair (Named ''center'') (Num (of_int (height cfg) * (3 / 4))), 35))
   \<and> (segment_type \<noteq> ''intro'' \<and> segment_type \<noteq> ''outro'' \<and> voice \<noteq> ''commentator'' \<longrightarrow>
      text_style cfg segment_type voice
        = (story_font_size cfg, ''white'', Pair (Named ''center'') (Named ''center''), 35))
   \<and> (create_text_clip e cfg body d segment_type voice = Inr c \<and> tc_method c = ''caption'' \<longrightarrow>
      (tc_fontsize c, tc_color c, tc_pos c)
        = (fst (text_style cfg segment_type voice),
           fst (snd (text_style cfg segment_type voice)),
           fst (snd (snd (text_style cfg segment_type voice)))))
   \<and> (create_text_clip e cfg body d segment_type voice = Inr c
        \<and> create_text_clip e1 cfg body1 d1 segment_type voice = Inr c1
        \<and> tc_method c = tc_method c1 \<longrightarrow>
      tc_fontsize c = tc_fontsize c1 \<and> tc_color c = tc_color c1 \<and> tc_pos c = tc_pos c1)"
proof (intro conjI impI)
  assume "segment_type = ''intro'' \<or> segment_type = ''outro''"
  then show "text_style cfg segment_type voice
      = (title_font_size cfg, ''white'', Pair (Named ''center'') (Named ''center''), 30)"
    by (simp add: text_style_def)
next
  assume "segment_type \<noteq> ''intro'' \<and> segment_type \<noteq> ''outro'' \<and> voice = ''commentator''"
  then show "text_style cfg segment_type voice
      = (commentary_font_size cfg, ''#FFD700'',
         Pair (Named ''center'') (Num (of_int (height cfg) * (3 / 4))), 35)"
    by (simp add: text_style_def)
next
  assume "segment_type \<noteq> ''intro'' \<and> segment_type \<noteq> ''outro'' \<and> voice \<noteq> ''commentator''"
  then show "text_style cfg segment_type voice
      = (story_font_size cfg, ''white'', Pair (Named ''center'') (Named ''center''), 35)"
    by (simp add: text_style_def)
next
  assume a: "create_text_clip e cfg body d segment_type voice = Inr c \<and> tc_method c = ''caption''"
  with create_text_clip_Inr [of e cfg body d segment_type voice c]
  show "(tc_fontsize c, tc_color c, tc_pos c)
        = (fst (text_style cfg segment_type voice),
           fst (snd (text_style cfg segment_type voice)),
           fst (snd (snd (text_style cfg segment_type voice))))"
    by auto
next
  assume a: "create_text_clip e cfg body d segment_type voice = Inr c
        \<and> create_text_clip e1 cfg body1 d1 segment_type voice = Inr c1
        \<and> tc_method c = tc_method c1"
  from a create_text_clip_Inr [of e cfg body d segment_type voice c]
    create_text_clip_Inr [of e1 cfg body1 d1 segment_type voice c1]
  show "tc_fontsize c = tc_fontsize c1" "tc_color c = tc_color c1" "tc_pos c = tc_pos c1"
    by auto
qed

theorem caption_style_table_witness:
  "text_style default_VideoConfig ''commentary'' ''commentator''
     = (32, ''#FFD700'', Pair (Named ''center'') (Num 1440), 35)
   \<and> text_style default_VideoConfig ''intro'' ''commentator''
     = (48, ''white'', Pair (Named ''center'') (Named ''center''), 30)
   \<and> text_style default_VideoConfig ''story'' ''narrator''
     = (36, ''white'', Pair (Named ''center'') (Named ''center''), 35)
   \<and> (\<exists>c. create_text_clip studio_env default_VideoConfig ''Wow'' 4 ''commentary''
              ''commentator'' = Inr c
          \<and> tc_method c = ''caption''
          \<and> (tc_fontsize c, tc_color c, tc_pos c)
               = (32, ''#FFD700'', Pair (Named ''center'') (Num 1440)))"
proof -
  have "case create_text_clip studio_env default_VideoConfig ''Wow'' 4 ''commentary''
            ''commentator'' of
          Inl err \<Rightarrow> False | Inr c \<Rightarrow> tc_method c = ''caption''"
    by code_simp
  then obtain c where c: "create_text_clip studio_env default_VideoConfig ''Wow'' 4
      ''commentary'' ''commentator'' = Inr c" "tc_method c = ''caption''"
    by (auto split: sum.splits)
  from caption_style_table [of "''commentary''" default_VideoConfig "''commentator''"
      studio_env "''Wow''" 4 c] c
    caption_style_table [of "''intro''" default_VideoConfig "''commentator''"]
    caption_style_table [of "''story''" default_VideoConfig "''narrator''"]
  show ?thesis
    by (simp add: default_VideoConfig_def FONT_SIZE_TITLE_def FONT_SIZE_STORY_def
        FONT_SIZE_COMMENTARY_def VIDEO_HEIGHT_def)
qed

subsection \<open>Thumbnail\<close>

text \<open>
  The exceptions that leave \<open>create_thumbnail\<close> are those of its first part, the
  background frame; without background videos it always returns a boolean.
\<close>

lemma create_thumbnail_raises_iff:
  "create_thumbnail e cfg script = Inl err \<longleftrightarrow> thumbnail_background e cfg = Inl err"
  by (cases "thumbnail_background e cfg") (simp_all add: create_thumbnail_def Let_def)

lemma create_thumbnail_no_background:
  "background_videos e = [] \<Longrightarrow> \<exists>b. create_thumbnail e cfg script = Inr b"
  by (auto simp: create_thumbnail_def thumbnail_background_def Let_def)

text \<open>
  C9. \<open>create_thumbnail\<close> on a run whose background video cannot be opened: the
  exception of the video loader leaves the method; no boolean is returned.
\<close>

theorem create_thumbnail_propagates_background_error:
  "create_thumbnail unreadable_background_env default_VideoConfig example_script
     = Inl (VideoFileError ''broken.mp4'')"
  by (simp add: create_thumbnail_def thumbnail_background_def unreadable_background_env_def
      random_choice_def)


subsection \<open>The timeline of the loop\<close>

lemma foldl_duration_sum:
  "foldl (\<lambda>acc seg. acc + duration seg) a segs = a + sum_list (map duration segs)"
  by (induction segs arbitrary: a) simp_all

lemma total_duration_sum:
  "total_duration segs
     = sum_list (map duration segs) + gap_duration * (of_nat (length segs) - 1)"
  by (simp add: total_duration_def foldl_duration_sum)

lemma length_start_times [simp]: "length (start_times t segs) = length segs"
  by (induction segs arbitrary: t) simp_all

lemma start_times_nth_0: "segs \<noteq> [] \<Longrightarrow> start_times t segs ! 0 = t"
  by (cases segs) simp_all

lemma start_times_nth_Suc:
  "Suc i < length segs \<Longrightarrow>
     start_times t segs ! Suc i = start_times t segs ! i + (duration (segs ! i) + gap_duration)"
proof (induction segs arbitrary: t i)
  case Nil
  then show ?case by simp
next
  case (Cons s segs)
  show ?case
  proof (cases i)
    case 0
    with Cons.prems show ?thesis by (simp add: start_times_nth_0)
  next
    case (Suc j)
    with Cons.prems have "Suc j < length segs" by simp
    from Cons.IH [OF this] Suc show ?thesis by simp
  qed
qed

lemma start_times_last:
  "segs \<noteq> [] \<Longrightarrow>
     last (start_times t segs) + duration (last segs)
       = t + sum_list (map duration segs) + gap_duration * (of_nat (length segs) - 1)"
proof (induction segs arbitrary: t)
  case Nil
  then show ?case by simp
next
  case (Cons s segs)
  show ?case
  proof (cases "segs = []")
    case True
    then show ?thesis by simp
  next
    case False
    then have ne: "start_times (t + (duration s + gap_duration)) segs \<noteq> []"
      by (cases segs) simp_all
    from Cons.IH [OF False, of "t + (duration s + gap_duration)"] False ne
    show ?thesis by (simp add: algebra_simps)
  qed
qed

lemma start_times_lower:
  "\<forall>s \<in> set segs. 0 \<le> duration s \<Longrightarrow> x \<in> set (start_times t segs) \<Longrightarrow> t \<le> x"
proof (induction segs arbitrary: t)
  case Nil
  then show ?case by simp
next
  case (Cons s segs)
  have g: "0 \<le> duration s + gap_duration" using Cons.prems(1) by (simp add: gap_duration_def)
  from Cons.prems(2) consider "x = t" | "x \<in> set (start_times (t + (duration s + gap_duration)) segs)"
    by auto
  then show ?case
  proof cases
    case 1
    then show ?thesis by simp
  next
    case 2
    with Cons.IH [of "t + (duration s + gap_duration)"] Cons.prems(1)
    have "t + (duration s + gap_duration) \<le> x" by simp
    with g show ?thesis by linarith
  qed
qed

lemma sorted_start_times:
  "\<forall>s \<in> set segs. 0 \<le> duration s \<Longrightarrow> sorted (start_times t segs)"
proof (induction segs arbitrary: t)
  case Nil
  then show ?case by simp
next
  case (Cons s segs)
  have g: "0 \<le> duration s + gap_duration" using Cons.prems by (simp add: gap_duration_def)
  have "\<forall>x \<in> set (start_times (t + (duration s + gap_duration)) segs). t \<le> x"
  proof
    fix x assume "x \<in> set (start_times (t + (duration s + gap_duration)) segs)"
    with start_times_lower [of segs x] Cons.prems
    have "t + (duration s + gap_duration) \<le> x" by simp
    with g show "t \<le> x" by linarith
  qed
  with Cons show ?case by simp
qed

lemma segment_step_Inr:
  assumes "segment_step e cfg script m st seg = Inr st1"
  shows "\<exists>ac tc. AudioFileClip e (audio_path seg) = Some ac
           \<and> audio_clips st1 = audio_clips st @ [ac\<lparr>ac_start := current_time st\<rparr>]
           \<and> text_clips st1 = text_clips st @ [tc\<lparr>tc_start := current_time st\<rparr>]
           \<and> character_clips st1
                = character_clips st @ character_overlay e cfg m seg (current_time st)
           \<and> current_time st1 = current_time st + (duration seg + gap_duration)"
  using assms by (auto simp: segment_step_def split: sum.splits option.splits)

lemma assemble_loop_Inr:
  "assemble_loop e cfg script m st segs = Inr st1 \<Longrightarrow>
     map ac_start (audio_clips st1)
       = map ac_start (audio_clips st) @ start_times (current_time st) segs
     \<and> map tc_start (text_clips st1)
       = map tc_start (text_clips st) @ start_times (current_time st) segs
     \<and> character_clips st1
       = character_clips st
           @ concat (map2 (character_overlay e cfg m) segs (start_times (current_time st) segs))"
proof (induction segs arbitrary: st)
  case Nil
  then show ?case by simp
next
  case (Cons seg segs)
  from Cons.prems obtain st2 where
    step: "segment_step e cfg script m st seg = Inr st2"
    and rest: "assemble_loop e cfg script m st2 segs = Inr st1"
    by (auto split: sum.splits)
  from segment_step_Inr [OF step] obtain ac tc where
    s2: "audio_clips st2 = audio_clips st @ [ac\<lparr>ac_start := current_time st\<rparr>]"
      "text_clips st2 = text_clips st @ [tc\<lparr>tc_start := current_time st\<rparr>]"
      "character_clips st2
         = character_clips st @ character_overlay e cfg m seg (current_time st)"
      "current_time st2 = current_time st + (duration seg + gap_duration)"
    by blast
  from Cons.IH [OF rest] s2 show ?case by simp
qed

lemma video_layers_texts: "video_layers (map TextLayer ts) = []"
  by (induction ts) simp_all

lemma video_layers_videos: "video_layers (map VideoLayer cs @ ls) = cs @ video_layers ls"
  by (induction cs) simp_all

lemma assemble_video_Inr:
  assumes "assemble_video e cfg script segs chars = Inr fv"
  shows "\<exists>bg st. get_background_clip e cfg (total_duration segs) = Inr bg
           \<and> assemble_loop e cfg script (build_char_video_map chars)
                \<lparr>audio_clips = [], text_clips = [], character_clips = [], current_time = 0\<rparr>
                segs = Inr st
           \<and> write_videofile_ok e
           \<and> CompositeAudioClip_ok e (audio_clips st)
           \<and> comp_audio fv = audio_clips st
           \<and> comp_duration fv = total_duration segs
           \<and> character_layers fv = character_clips st
           \<and> hd (comp_layers fv) = VideoLayer bg"
  using assms
  by (auto simp: assemble_video_def Let_def character_layers_def video_layers_videos
      video_layers_texts
      split: sum.splits option.splits if_splits)

lemma assemble_video_timeline:
  assumes "assemble_video e cfg script segs chars = Inr fv"
  shows "map ac_start (comp_audio fv) = start_times 0 segs"
    and "character_layers fv
           = concat (map2 (character_overlay e cfg (build_char_video_map chars)) segs
               (start_times 0 segs))"
    and "comp_duration fv = total_duration segs"
proof -
  from assemble_video_Inr [OF assms] obtain bg :: video_clip and st where
    loop: "assemble_loop e cfg script (build_char_video_map chars)
             \<lparr>audio_clips = [], text_clips = [], character_clips = [], current_time = 0\<rparr>
             segs = Inr st"
    and fv: "comp_audio fv = audio_clips st" "comp_duration fv = total_duration segs"
      "character_layers fv = character_clips st"
    by blast
  from assemble_loop_Inr [OF loop] fv
  show "map ac_start (comp_audio fv) = start_times 0 segs"
    and "character_layers fv
           = concat (map2 (character_overlay e cfg (build_char_video_map chars)) segs
               (start_times 0 segs))"
    and "comp_duration fv = total_duration segs"
    by simp_all
qed

lemma text_layers_texts: "text_layers (map TextLayer ts) = ts"
  by (induction ts) simp_all

lemma text_layers_videos: "text_layers (map VideoLayer cs @ ls) = text_layers ls"
  by (induction cs) simp_all

lemma assemble_video_captions:
  assumes "assemble_video e cfg script segs chars = Inr fv"
  shows "\<exists>badge :: text_clip list. length badge \<le> 1
           \<and> map tc_start (text_layers (comp_layers fv))
               = map tc_start badge @ start_times 0 segs"
proof -
  from assms obtain bg st where
    loop: "assemble_loop e cfg script (build_char_video_map chars)
             \<lparr>audio_clips = [], text_clips = [], character_clips = [], current_time = 0\<rparr>
             segs = Inr st"
    and layers: "comp_layers fv
       = [VideoLayer bg] @ map VideoLayer (character_clips st)
           @ map TextLayer
               (case create_subreddit_badge e cfg (subreddit script) (total_duration segs) of
                  None \<Rightarrow> text_clips st | Some badge \<Rightarrow> badge # text_clips st)"
    by (auto simp: assemble_video_def Let_def split: sum.splits if_splits)
  from assemble_loop_Inr [OF loop]
  have ts: "map tc_start (text_clips st) = start_times 0 segs" by simp
  show ?thesis
  proof (cases "create_subreddit_badge e cfg (subreddit script) (total_duration segs)")
    case None
    with layers ts have "length ([] :: text_clip list) \<le> 1
        \<and> map tc_start (text_layers (comp_layers fv))
            = map tc_start [] @ start_times 0 segs"
      by (simp add: text_layers_videos text_layers_texts)
    then show ?thesis by (rule exI)
  next
    case (Some b)
    with layers ts have "length [b] \<le> 1
        \<and> map tc_start (text_layers (comp_layers fv))
            = map tc_start [b] @ start_times 0 segs"
      by (simp add: text_layers_videos text_layers_texts)
    then show ?thesis by (rule exI)
  qed
qed

text \<open>
  C3. For every non-empty audio-segment sequence the total duration computed by
  \<open>assemble_video\<close> is the sum of the segment durations plus 0.3 seconds times the
  number of segments minus one. In a run that returns, this is the duration of the
  composite; the first segment starts at 0 (no gap before it), every next segment starts
  0.3 seconds after the end of the one before, and the last segment ends exactly at the
  total duration (no gap after it).
\<close>

theorem total_duration_invariant:
  assumes ne: "segs \<noteq> []"
  shows "total_duration segs
           = sum_list (map duration segs) + (3 / 10) * (of_nat (length segs) - 1)
       \<and> (assemble_video e cfg script segs chars = Inr fv \<longrightarrow>
            comp_duration fv = total_duration segs
          \<and> length (comp_audio fv) = length segs
          \<and> ac_start (hd (comp_audio fv)) = 0
          \<and> (\<forall>i. Suc i < length segs \<longrightarrow>
                 ac_start (comp_audio fv ! Suc i)
                   = ac_start (comp_audio fv ! i) + duration (segs ! i) + 3 / 10)
          \<and> ac_start (last (comp_audio fv)) + duration (last segs) = total_duration segs)"
proof (intro conjI impI allI)
  show "total_duration segs
      = sum_list (map duration segs) + (3 / 10) * (of_nat (length segs) - 1)"
    by (simp add: total_duration_sum gap_duration_def)
next
  assume a: "assemble_video e cfg script segs chars = Inr fv"
  note tl = assemble_video_timeline [OF a]
  show "comp_duration fv = total_duration segs" by (rule tl(3))
  have len: "length (map ac_start (comp_audio fv)) = length segs"
    unfolding tl(1) by simp
  then show l: "length (comp_audio fv) = length segs" by simp
  with ne have ane: "comp_audio fv \<noteq> []" by auto
  have "hd (map ac_start (comp_audio fv)) = 0"
    unfolding tl(1) using ne by (cases segs) simp_all
  then show "ac_start (hd (comp_audio fv)) = 0" using ane by (simp add: hd_map)
  have "last (map ac_start (comp_audio fv)) + duration (last segs) = total_duration segs"
    unfolding tl(1) using start_times_last [OF ne, of 0] by (simp add: total_duration_sum)
  then show "ac_start (last (comp_audio fv)) + duration (last segs) = total_duration segs"
    using ane by (simp add: last_map)
  fix i assume i: "Suc i < length segs"
  have "map ac_start (comp_audio fv) ! Suc i
      = map ac_start (comp_audio fv) ! i + (duration (segs ! i) + gap_duration)"
    unfolding tl(1) by (rule start_times_nth_Suc [OF i])
  then show "ac_start (comp_audio fv ! Suc i)
      = ac_start (comp_audio fv ! i) + duration (segs ! i) + 3 / 10"
    using i l by (simp add: gap_duration_def)
qed

theorem total_duration_invariant_witness:
  "example_audio \<noteq> []
   \<and> total_duration example_audio = 3 + 5 + 4 + (3 / 10) * 2
   \<and> (\<exists>fv. assemble_video studio_env default_VideoConfig example_script example_audio
              (Some example_characters) = Inr fv
          \<and> comp_duration fv = 63 / 5
          \<and> map ac_start (comp_audio fv) = [0, 33 / 10, 43 / 5])"
proof -
  have ne: "example_audio \<noteq> []" by (simp add: example_audio_def)
  have ev: "case assemble_video studio_env default_VideoConfig example_script example_audio
              (Some example_characters) of
              Inl err \<Rightarrow> False
            | Inr fv \<Rightarrow> map ac_start (comp_audio fv) = [0, 33 / 10, 43 / 5]"
    by code_simp
  then obtain fv where fv: "assemble_video studio_env default_VideoConfig example_script
      example_audio (Some example_characters) = Inr fv"
    "map ac_start (comp_audio fv) = [0, 33 / 10, 43 / 5]"
    by (auto split: sum.splits)
  have sm: "sum_list (map duration example_audio) = 12" "length example_audio = 3"
    by (simp_all add: example_audio_def)
  from total_duration_invariant [OF ne, of studio_env default_VideoConfig example_script
      "Some example_characters" fv] fv sm
  show ?thesis using ne by auto
qed

text \<open>
  C4. In a run of \<open>assemble_video\<close> that returns, every audio segment has its start
  time; each next start is the start before plus that segment's duration plus the gap,
  hence at least the end of the segment before (no overlap). For durations that are not
  negative the start times are non-decreasing. The captions carry the same start times,
  after the badge when there is one.
\<close>

theorem segment_starts_ordered:
  assumes a: "assemble_video e cfg script segs chars = Inr fv"
  shows "length (comp_audio fv) = length segs
       \<and> (\<forall>i. Suc i < length segs \<longrightarrow>
              ac_start (comp_audio fv ! i) + duration (segs ! i)
                \<le> ac_start (comp_audio fv ! Suc i)
            \<and> ac_start (comp_audio fv ! Suc i)
                = ac_start (comp_audio fv ! i) + duration (segs ! i) + gap_duration)
       \<and> ((\<forall>s \<in> set segs. 0 \<le> duration s) \<longrightarrow> sorted (map ac_start (comp_audio fv)))
       \<and> (\<exists>badge :: text_clip list. length badge \<le> 1
             \<and> map tc_start (text_layers (comp_layers fv))
                 = map tc_start badge @ map ac_start (comp_audio fv))"
proof (intro conjI impI allI)
  note tl = assemble_video_timeline [OF a]
  have "length (map ac_start (comp_audio fv)) = length segs"
    unfolding tl(1) by simp
  then show l: "length (comp_audio fv) = length segs" by simp
  show "\<exists>badge :: text_clip list. length badge \<le> 1
      \<and> map tc_start (text_layers (comp_layers fv))
          = map tc_start badge @ map ac_start (comp_audio fv)"
    using assemble_video_captions [OF a] unfolding tl(1) .
  {
    assume "\<forall>s \<in> set segs. 0 \<le> duration s"
    then show "sorted (map ac_start (comp_audio fv))"
      unfolding tl(1) by (rule sorted_start_times)
  }
  fix i assume i: "Suc i < length segs"
  have "map ac_start (comp_audio fv) ! Suc i
      = map ac_start (comp_audio fv) ! i + (duration (segs ! i) + gap_duration)"
    unfolding tl(1) by (rule start_times_nth_Suc [OF i])
  then show eq: "ac_start (comp_audio fv ! Suc i)
      = ac_start (comp_audio fv ! i) + duration (segs ! i) + gap_duration"
    using i l by simp
  then show "ac_start (comp_audio fv ! i) + duration (segs ! i)
      \<le> ac_start (comp_audio fv ! Suc i)"
    by (simp add: gap_duration_def)
qed

theorem segment_starts_ordered_witness:
  "\<exists>fv. assemble_video studio_env default_VideoConfig example_script example_audio None = Inr fv
      \<and> (\<forall>s \<in> set example_audio. 0 \<le> duration s)
      \<and> sorted (map ac_start (comp_audio fv))
      \<and> ac_start (comp_audio fv ! 0) + duration (example_audio ! 0)
           \<le> ac_start (comp_audio fv ! 1)"
proof -
  have ev: "case assemble_video studio_env default_VideoConfig example_script example_audio
              None of
              Inl err \<Rightarrow> False | Inr fv \<Rightarrow> True"
    by code_simp
  then obtain fv where fv: "assemble_video studio_env default_VideoConfig example_script
      example_audio None = Inr fv"
    by (auto split: sum.splits)
  have nn: "\<forall>s \<in> set example_audio. 0 \<le> duration s" by (simp add: example_audio_def)
  have len: "Suc 0 < length example_audio" by (simp add: example_audio_def)
  from segment_starts_ordered [OF fv] nn len
  have "sorted (map ac_start (comp_audio fv))"
    and "ac_start (comp_audio fv ! 0) + duration (example_audio ! 0)
           \<le> ac_start (comp_audio fv ! Suc 0)"
    by blast+
  with fv nn show ?thesis by auto
qed

subsection \<open>Character overlays\<close>

lemma create_character_clip_Some:
  assumes "create_character_clip e cfg p d t = Some c"
  shows "\<exists>raw native. VideoFileClip e p = Some raw \<and> clip_duration raw = Some native
           \<and> clip_w raw \<noteq> 0
           \<and> clip_start c = t \<and> clip_duration c = Some (min native d) \<and> \<not> clip_audio c
           \<and> clip_source c = clip_source raw"
  using assms
  by (auto simp: create_character_clip_def py_truediv_def Let_def resize_to_def set_start_def
      set_duration_def set_position_def without_audio_def
      split: option.splits sum.splits if_splits)

text \<open>
  The index built from a list holds, for every key, the last entry of the list with that
  key.
\<close>

lemma foldl_index_lookup:
  "foldl (\<lambda>m cv. m(cv_segment_index cv \<mapsto> cv)) m0 cvs k
     = (case filter (\<lambda>cv. cv_segment_index cv = k) cvs of
          [] \<Rightarrow> m0 k
        | x # xs \<Rightarrow> Some (last (x # xs)))"
proof (induction cvs rule: rev_induct)
  case Nil
  show ?case by simp
next
  case (snoc cv cvs)
  show ?case
  proof (cases "cv_segment_index cv = k")
    case True
    have "filter (\<lambda>cv. cv_segment_index cv = k) cvs @ [cv] \<noteq> []" by simp
    then obtain x xs where
      e: "filter (\<lambda>cv. cv_segment_index cv = k) cvs @ [cv] = x # xs"
      by (cases "filter (\<lambda>cv. cv_segment_index cv = k) cvs @ [cv]") auto
    have l: "last (x # xs) = cv" by (metis e last_snoc)
    show ?thesis using True by (simp add: e l del: last.simps)
  next
    case False
    with snoc show ?thesis by simp
  qed
qed

lemma build_char_video_map_last:
  "build_char_video_map (Some cvs) k
     = (case filter (\<lambda>cv. cv_segment_index cv = k) cvs of
          [] \<Rightarrow> None
        | x # xs \<Rightarrow> Some (last (x # xs)))"
  by (cases "cvs = []") (simp_all add: build_char_video_map_def foldl_index_lookup)

lemma segment_step_error_indep:
  "(segment_step e cfg script m st seg = Inl err)
     = (segment_step e cfg script m1 st1 seg = Inl err)"
  by (simp add: segment_step_def split: sum.splits option.splits)

lemma assemble_loop_error_indep:
  "(assemble_loop e cfg script m st segs = Inl err)
     = (assemble_loop e cfg script m1 st1 segs = Inl err)"
proof (induction segs arbitrary: st st1)
  case Nil
  show ?case by simp
next
  case (Cons seg segs)
  show ?case
  proof (cases "segment_step e cfg script m st seg")
    case (Inl x)
    with segment_step_error_indep [of e cfg script m st seg x m1 st1]
    have "segment_step e cfg script m1 st1 seg = Inl x" by simp
    with Inl show ?thesis by simp
  next
    case (Inr s)
    show ?thesis
    proof (cases "segment_step e cfg script m1 st1 seg")
      case (Inl y)
      with segment_step_error_indep [of e cfg script m st seg y m1 st1] Inr
      show ?thesis by simp
    next
      case r: (Inr s1)
      from Inr r Cons.IH [of s s1] show ?thesis by simp
    qed
  qed
qed

lemma assemble_video_error_iff:
  "assemble_video e cfg script segs chars = Inl err \<longleftrightarrow>
     get_background_clip e cfg (total_duration segs) = Inl err
   \<or> (\<exists>bg. get_background_clip e cfg (total_duration segs) = Inr bg)
       \<and> (assemble_loop e cfg script (build_char_video_map chars)
             \<lparr>audio_clips = [], text_clips = [], character_clips = [], current_time = 0\<rparr>
             segs = Inl err
          \<or> (\<exists>st. assemble_loop e cfg script (build_char_video_map chars)
                 \<lparr>audio_clips = [], text_clips = [], character_clips = [], current_time = 0\<rparr>
                 segs = Inr st
               \<and> (\<not> CompositeAudioClip_ok e (audio_clips st) \<and> err = ValueError
                  \<or> CompositeAudioClip_ok e (audio_clips st)
                     \<and> \<not> write_videofile_ok e \<and> err = WriteVideofileError)))"
  by (auto simp: assemble_video_def Let_def split: sum.splits)

lemma character_overlay_member:
  "c \<in> set (character_overlay e cfg m seg t) \<longleftrightarrow>
     (\<exists>cv. m (segment_index seg) = Some cv
        \<and> create_character_clip e cfg (video_path cv) (duration seg) t = Some c)"
proof (cases "m (segment_index seg)")
  case None
  then show ?thesis by (simp add: character_overlay_def)
next
  case (Some cv)
  then show ?thesis
    by (cases "create_character_clip e cfg (video_path cv) (duration seg) t")
      (auto simp: character_overlay_def)
qed

text \<open>
  A character video that opens, has a duration and a width that is not zero always gives
  its clip: resized, started at the given time, cut to the minimum of its own duration and
  the given one, positioned and muted, by exactly these five calls.
\<close>

lemma create_character_clip_loaded:
  assumes "VideoFileClip e p = Some raw" "clip_duration raw = Some native" "clip_w raw \<noteq> 0"
  shows "\<exists>c tw th pos. create_character_clip e cfg p d t = Some c
           \<and> clip_source c = clip_source raw
           \<and> clip_start c = t \<and> clip_duration c = Some (min native d) \<and> \<not> clip_audio c
           \<and> clip_calls c
                = clip_calls raw
                    @ [ResizeTo tw th, SetStart t, SetDuration (min native d),
                       SetPosition pos, WithoutAudio]"
  using assms
  by (simp add: create_character_clip_def py_truediv_def Let_def resize_to_def set_start_def
      set_duration_def set_position_def without_audio_def)

text \<open>
  C7. In a run of \<open>assemble_video\<close> that returns, the character layers are, segment by
  segment in order, the overlays of the segments at their start times. Every overlay of a
  segment comes from the entry that the index holds for the segment: it starts at the
  time given for the segment, lasts the minimum of the clip's own duration and the
  segment's duration (so it is never longer than the clip itself), and has no audio.
  Whenever the clip of the indexed entry could be made, it is the one overlay of the
  segment. And whenever the video of the indexed entry opens with a duration and a width
  that is not zero, the segment has its overlay, whether the clip is shorter or longer than
  the segment: it starts at the segment's time, lasts that minimum, has no audio, and was
  made from the opened video by one resize, \<open>set_start\<close>, \<open>set_duration\<close>,
  \<open>set_position\<close> and \<open>without_audio\<close>, with no loop and no change of speed.
\<close>

theorem character_overlay_timing:
  assumes "assemble_video e cfg script segs chars = Inr fv"
  shows "character_layers fv
           = concat (map2 (character_overlay e cfg (build_char_video_map chars)) segs
               (map ac_start (comp_audio fv)))
       \<and> (\<forall>seg t c. c \<in> set (character_overlay e cfg (build_char_video_map chars) seg t) \<longrightarrow>
             (\<exists>cv raw native.
                build_char_video_map chars (segment_index seg) = Some cv
              \<and> VideoFileClip e (video_path cv) = Some raw
              \<and> clip_duration raw = Some native
              \<and> clip_start c = t
              \<and> clip_duration c = Some (min native (duration seg))
              \<and> min native (duration seg) \<le> native
              \<and> \<not> clip_audio c))
       \<and> (\<forall>seg t cv c.
              build_char_video_map chars (segment_index seg) = Some cv
            \<and> create_character_clip e cfg (video_path cv) (duration seg) t = Some c \<longrightarrow>
              character_overlay e cfg (build_char_video_map chars) seg t = [c])
       \<and> (\<forall>seg t cv raw native.
              build_char_video_map chars (segment_index seg) = Some cv
            \<and> VideoFileClip e (video_path cv) = Some raw
            \<and> clip_duration raw = Some native \<and> clip_w raw \<noteq> 0 \<longrightarrow>
              (\<exists>c tw th pos.
                 character_overlay e cfg (build_char_video_map chars) seg t = [c]
               \<and> clip_source c = clip_source raw
               \<and> clip_start c = t
               \<and> clip_duration c = Some (min native (duration seg))
               \<and> \<not> clip_audio c
               \<and> clip_calls c
                    = clip_calls raw
                        @ [ResizeTo tw th, SetStart t, SetDuration (min native (duration seg)),
                           SetPosition pos, WithoutAudio]))"
proof (intro conjI allI impI)
  note tl = assemble_video_timeline [OF assms]
  show "character_layers fv
      = concat (map2 (character_overlay e cfg (build_char_video_map chars)) segs
          (map ac_start (comp_audio fv)))"
    unfolding tl(1) by (rule tl(2))
next
  fix seg t c
  assume c: "c \<in> set (character_overlay e cfg (build_char_video_map chars) seg t)"
  then obtain cv where cv: "build_char_video_map chars (segment_index seg) = Some cv"
    and mk: "create_character_clip e cfg (video_path cv) (duration seg) t = Some c"
    unfolding character_overlay_member by blast
  from create_character_clip_Some [OF mk] cv
  show "\<exists>cv raw native.
          build_char_video_map chars (segment_index seg) = Some cv
        \<and> VideoFileClip e (video_path cv) = Some raw
        \<and> clip_duration raw = Some native
        \<and> clip_start c = t
        \<and> clip_duration c = Some (min native (duration seg))
        \<and> min native (duration seg) \<le> native
        \<and> \<not> clip_audio c"
    by (metis min.cobounded1)
next
  fix seg :: AudioSegment and t cv c
  assume "build_char_video_map chars (segment_index seg) = Some cv
      \<and> create_character_clip e cfg (video_path cv) (duration seg) t = Some c"
  then show "character_overlay e cfg (build_char_video_map chars) seg t = [c]"
    by (simp add: character_overlay_def)
next
  fix seg :: AudioSegment and t cv raw native
  assume a: "build_char_video_map chars (segment_index seg) = Some cv
      \<and> VideoFileClip e (video_path cv) = Some raw
      \<and> clip_duration raw = Some native \<and> clip_w raw \<noteq> 0"
  then have l: "VideoFileClip e (video_path cv) = Some raw" "clip_duration raw = Some native"
      "clip_w raw \<noteq> 0"
    by simp_all
  from create_character_clip_loaded [OF l, of cfg "duration seg" t]
  obtain c tw th pos where
    c: "create_character_clip e cfg (video_path cv) (duration seg) t = Some c"
      "clip_source c = clip_source raw" "clip_start c = t"
      "clip_duration c = Some (min native (duration seg))" "\<not> clip_audio c"
      "clip_calls c
         = clip_calls raw
             @ [ResizeTo tw th, SetStart t, SetDuration (min native (duration seg)),
                SetPosition pos, WithoutAudio]"
    by blast
  have "character_overlay e cfg (build_char_video_map chars) seg t = [c]"
    using a c(1) by (simp add: character_overlay_def)
  with c show "\<exists>c tw th pos.
       character_overlay e cfg (build_char_video_map chars) seg t = [c]
     \<and> clip_source c = clip_source raw
     \<and> clip_start c = t
     \<and> clip_duration c = Some (min native (duration seg))
     \<and> \<not> clip_audio c
     \<and> clip_calls c
          = clip_calls raw
              @ [ResizeTo tw th, SetStart t, SetDuration (min native (duration seg)),
                 SetPosition pos, WithoutAudio]"
    by blast
qed

theorem character_overlay_timing_witness:
  "\<exists>fv c c2. assemble_video studio_env default_VideoConfig example_script commentary_audio
            (Some example_characters) = Inr fv
      \<and> duration (hd commentary_audio) = 4
      \<and> clip_duration character_source = Some (5 / 2)
      \<and> character_layers fv = [c]
      \<and> clip_start c = 0 \<and> clip_duration c = Some (5 / 2) \<and> \<not> clip_audio c
      \<and> clip_calls c
           = [ResizeTo 378 378, SetStart 0, SetDuration (5 / 2),
              SetPosition (Pair (Num 682) (Num 1522)), WithoutAudio]
      \<and> duration short_commentary = 2
      \<and> character_overlay studio_env default_VideoConfig
           (build_char_video_map (Some example_characters)) short_commentary 7 = [c2]
      \<and> clip_start c2 = 7 \<and> clip_duration c2 = Some 2 \<and> \<not> clip_audio c2
      \<and> clip_calls c2
           = [ResizeTo 378 378, SetStart 7, SetDuration 2,
              SetPosition (Pair (Num 682) (Num 1522)), WithoutAudio]"
proof -
  have ev: "case assemble_video studio_env default_VideoConfig example_script commentary_audio
              (Some example_characters) of
              Inl err \<Rightarrow> False
            | Inr fv \<Rightarrow> map ac_start (comp_audio fv) = [0]"
    by code_simp
  then obtain fv where fv: "assemble_video studio_env default_VideoConfig example_script
      commentary_audio (Some example_characters) = Inr fv"
    and st: "map ac_start (comp_audio fv) = [0]"
    by (auto split: sum.splits)
  note th = character_overlay_timing [OF fv]
  have m: "build_char_video_map (Some example_characters) (segment_index (hd commentary_audio))
      = Some (example_characters ! 1)"
    by (simp add: build_char_video_map_def example_characters_def commentary_audio_def)
  have m2: "build_char_video_map (Some example_characters) (segment_index short_commentary)
      = Some (example_characters ! 1)"
    by (simp add: build_char_video_map_def example_characters_def short_commentary_def)
  have v: "VideoFileClip studio_env (video_path (example_characters ! 1)) = Some character_source"
    by (simp add: studio_env_def example_characters_def)
  have d: "clip_duration character_source = Some (5 / 2)" "clip_w character_source \<noteq> 0"
      "clip_calls character_source = []"
    by (simp_all add: character_source_def)
  have d4: "duration (hd commentary_audio) = 4" by (simp add: commentary_audio_def)
  have d2: "duration short_commentary = 2" by (simp add: short_commentary_def)
  from th m v d obtain c tw th1 pos where
    ov: "character_overlay studio_env default_VideoConfig
      (build_char_video_map (Some example_characters)) (hd commentary_audio) 0 = [c]"
    and c: "clip_start c = 0" "clip_duration c = Some (min (5 / 2) (duration (hd commentary_audio)))"
      "\<not> clip_audio c"
    and cc: "clip_calls c
       = clip_calls character_source
           @ [ResizeTo tw th1, SetStart 0,
              SetDuration (min (5 / 2) (duration (hd commentary_audio))),
              SetPosition pos, WithoutAudio]"
    by blast
  from th m2 v d obtain c2 tw2 th2 pos2 where
    ov2: "character_overlay studio_env default_VideoConfig
      (build_char_video_map (Some example_characters)) short_commentary 7 = [c2]"
    and c2: "clip_start c2 = 7" "clip_duration c2 = Some (min (5 / 2) (duration short_commentary))"
      "\<not> clip_audio c2"
    and cc2: "clip_calls c2
       = clip_calls character_source
           @ [ResizeTo tw2 th2, SetStart 7,
              SetDuration (min (5 / 2) (duration short_commentary)),
              SetPosition pos2, WithoutAudio]"
    by blast
  have k: "map clip_calls (character_overlay studio_env default_VideoConfig
      (build_char_video_map (Some example_characters)) (hd commentary_audio) 0)
        = [[ResizeTo 378 378, SetStart 0, SetDuration (5 / 2),
            SetPosition (Pair (Num 682) (Num 1522)), WithoutAudio]]"
    by code_simp
  have k2: "map clip_calls (character_overlay studio_env default_VideoConfig
      (build_char_video_map (Some example_characters)) short_commentary 7)
        = [[ResizeTo 378 378, SetStart 7, SetDuration 2,
            SetPosition (Pair (Num 682) (Num 1522)), WithoutAudio]]"
    by code_simp
  have l: "character_layers fv = [c]"
    using th st ov by (simp add: commentary_audio_def)
  have "clip_duration c = Some (5 / 2)" "clip_duration c2 = Some 2"
    using c(2) c2(2) d4 d2 by simp_all
  with fv d4 d(1) l c(1,3) k ov d2 ov2 c2(1,3) k2 show ?thesis by auto
qed

text \<open>
  C10. The index of character videos holds, for a segment index, the last entry of the
  list with that index: a later entry replaces an earlier one. One audio segment gets at
  most one overlay, and in a run that returns the character layers are built, segment by
  segment, from the video path of the last matching entry.
\<close>

theorem duplicate_character_entries:
  "build_char_video_map (Some cvs) k
     = (case filter (\<lambda>cv. cv_segment_index cv = k) cvs of
          [] \<Rightarrow> None
        | x # xs \<Rightarrow> Some (last (x # xs)))
   \<and> length (character_overlay e cfg (build_char_video_map (Some cvs)) seg t) \<le> 1
   \<and> (assemble_video e cfg script segs (Some cvs) = Inr fv \<longrightarrow>
        character_layers fv
          = concat (map2
              (\<lambda>seg t. case filter (\<lambda>cv. cv_segment_index cv = segment_index seg) cvs of
                   [] \<Rightarrow> []
                 | x # xs \<Rightarrow>
                     (case create_character_clip e cfg (video_path (last (x # xs)))
                             (duration seg) t of
                        None \<Rightarrow> []
                      | Some c \<Rightarrow> [c]))
              segs (map ac_start (comp_audio fv))))"
proof (intro conjI impI)
  show "build_char_video_map (Some cvs) k
      = (case filter (\<lambda>cv. cv_segment_index cv = k) cvs of
           [] \<Rightarrow> None
         | x # xs \<Rightarrow> Some (last (x # xs)))"
    by (rule build_char_video_map_last)
  show "length (character_overlay e cfg (build_char_video_map (Some cvs)) seg t) \<le> 1"
    by (simp add: character_overlay_def split: option.splits)
  assume a: "assemble_video e cfg script segs (Some cvs) = Inr fv"
  have ov: "character_overlay e cfg (build_char_video_map (Some cvs))
      = (\<lambda>seg t. case filter (\<lambda>cv. cv_segment_index cv = segment_index seg) cvs of
                   [] \<Rightarrow> []
                 | x # xs \<Rightarrow>
                     (case create_character_clip e cfg (video_path (last (x # xs)))
                             (duration seg) t of
                        None \<Rightarrow> []
                      | Some c \<Rightarrow> [c]))"
    by (intro ext)
      (simp add: character_overlay_def build_char_video_map_last split: list.splits
        del: last.simps)
  note tl = assemble_video_timeline [OF a]
  show "character_layers fv
      = concat (map2
          (\<lambda>seg t. case filter (\<lambda>cv. cv_segment_index cv = segment_index seg) cvs of
               [] \<Rightarrow> []
             | x # xs \<Rightarrow>
                 (case create_character_clip e cfg (video_path (last (x # xs)))
                         (duration seg) t of
                    None \<Rightarrow> []
                  | Some c \<Rightarrow> [c]))
          segs (map ac_start (comp_audio fv)))"
    unfolding tl(1) ov [symmetric] by (rule tl(2))
qed

theorem duplicate_character_entries_witness:
  "map cv_segment_index example_characters = [2, 2]
   \<and> build_char_video_map (Some example_characters) 2 = Some (last example_characters)
   \<and> (\<exists>fv. assemble_video studio_env default_VideoConfig example_script example_audio
              (Some example_characters) = Inr fv
          \<and> map clip_source (character_layers fv) = [FromFile ''character_b.mp4''])"
proof -
  have ev: "case assemble_video studio_env default_VideoConfig example_script example_audio
              (Some example_characters) of
              Inl err \<Rightarrow> False
            | Inr fv \<Rightarrow> map ac_start (comp_audio fv) = [0, 33 / 10, 43 / 5]"
    by code_simp
  then obtain fv where fv: "assemble_video studio_env default_VideoConfig example_script
      example_audio (Some example_characters) = Inr fv"
    and st: "map ac_start (comp_audio fv) = [0, 33 / 10, 43 / 5]"
    by (auto split: sum.splits)
  have cc: "map_option clip_source
      (create_character_clip studio_env default_VideoConfig ''character_b.mp4'' 4 (43 / 5))
        = Some (FromFile ''character_b.mp4'')"
    by code_simp
  from duplicate_character_entries [of example_characters 2 studio_env default_VideoConfig
      "example_audio ! 2" 0 example_script example_audio fv] fv
  have m: "build_char_video_map (Some example_characters) 2 = Some (last example_characters)"
    and l: "character_layers fv
      = concat (map2
          (\<lambda>seg t. case filter (\<lambda>cv. cv_segment_index cv = segment_index seg)
                         example_characters of
               [] \<Rightarrow> []
             | x # xs \<Rightarrow>
                 (case create_character_clip studio_env default_VideoConfig
                         (video_path (last (x # xs))) (duration seg) t of
                    None \<Rightarrow> []
                  | Some c \<Rightarrow> [c]))
          example_audio (map ac_start (comp_audio fv)))"
    by (simp_all add: example_characters_def)
  have "map clip_source (character_layers fv) = [FromFile ''character_b.mp4'']"
    unfolding l st using cc
    by (auto simp: example_audio_def example_characters_def split: option.splits)
  with fv m show ?thesis by (auto simp: example_characters_def)
qed

subsection \<open>Failures\<close>

lemma total_duration_Nil: "total_duration [] = - (3 / 10)"
  by (simp add: total_duration_def gap_duration_def)

text \<open>
  C1 (as amended). \<open>assemble_video\<close> does not check for an empty audio-segment sequence.
  On the empty sequence it computes a total duration of minus 0.3 seconds and asks for the
  background clip of that duration. It raises exactly when loading the background raises
  (with that exception), or the library refuses to compose the empty list of audio clips
  (ValueError), or the encoder fails, and it returns exactly when none of these happens.
  Without background videos, and with a library that refuses the empty list, the call ends
  in ValueError after the solid-colour background was made.
\<close>

theorem assemble_video_empty_input:
  "total_duration [] = - (3 / 10)
   \<and> (assemble_video e cfg script [] chars = Inl err \<longleftrightarrow>
        get_background_clip e cfg (- (3 / 10)) = Inl err
        \<or> (\<exists>bg. get_background_clip e cfg (- (3 / 10)) = Inr bg)
           \<and> (\<not> CompositeAudioClip_ok e [] \<and> err = ValueError
              \<or> CompositeAudioClip_ok e [] \<and> \<not> write_videofile_ok e
                 \<and> err = WriteVideofileError))
   \<and> ((\<exists>fv. assemble_video e cfg script [] chars = Inr fv) \<longleftrightarrow>
        (\<exists>bg. get_background_clip e cfg (- (3 / 10)) = Inr bg)
        \<and> CompositeAudioClip_ok e [] \<and> write_videofile_ok e)
   \<and> (background_videos e = [] \<and> \<not> CompositeAudioClip_ok e [] \<longrightarrow>
        assemble_video e cfg script [] chars = Inl ValueError)"
proof (intro conjI impI)
  show "total_duration [] = - (3 / 10)" by (rule total_duration_Nil)
next
  show "assemble_video e cfg script [] chars = Inl err \<longleftrightarrow>
        get_background_clip e cfg (- (3 / 10)) = Inl err
        \<or> (\<exists>bg. get_background_clip e cfg (- (3 / 10)) = Inr bg)
           \<and> (\<not> CompositeAudioClip_ok e [] \<and> err = ValueError
              \<or> CompositeAudioClip_ok e [] \<and> \<not> write_videofile_ok e
                 \<and> err = WriteVideofileError)"
    unfolding assemble_video_error_iff by (auto simp: total_duration_Nil)
next
  show "(\<exists>fv. assemble_video e cfg script [] chars = Inr fv) \<longleftrightarrow>
        (\<exists>bg. get_background_clip e cfg (- (3 / 10)) = Inr bg)
        \<and> CompositeAudioClip_ok e [] \<and> write_videofile_ok e"
    by (cases "get_background_clip e cfg (- (3 / 10))")
      (simp_all add: assemble_video_def Let_def total_duration_Nil)
next
  assume "background_videos e = [] \<and> \<not> CompositeAudioClip_ok e []"
  then show "assemble_video e cfg script [] chars = Inl ValueError"
    by (simp add: assemble_video_def get_background_clip_def Let_def)
qed

text \<open>
  The claim as stated fails: on the empty sequence with a background video that cannot be
  opened, the exception that leaves \<open>assemble_video\<close> is the video loader's; the call
  went on to the background stage.
\<close>

theorem assemble_video_empty_input_counterexample:
  "assemble_video unreadable_background_env default_VideoConfig example_script [] None
     = Inl (VideoFileError ''broken.mp4'')"
  by code_simp

theorem assemble_video_empty_input_witness:
  "background_videos no_background_env = [] \<and> \<not> CompositeAudioClip_ok no_background_env []
   \<and> total_duration [] = - (3 / 10)
   \<and> get_background_clip no_background_env default_VideoConfig (- (3 / 10))
        = Inr (ColorClip (1080, 1920) (30, 30, 40) (- (3 / 10)))
   \<and> assemble_video no_background_env default_VideoConfig example_script [] None
        = Inl ValueError"
proof -
  have h: "background_videos no_background_env = []
      \<and> \<not> CompositeAudioClip_ok no_background_env []"
    by (simp add: no_background_env_def)
  have bg: "get_background_clip no_background_env default_VideoConfig (- (3 / 10))
        = Inr (ColorClip (1080, 1920) (30, 30, 40) (- (3 / 10)))"
    by (simp add: get_background_clip_def no_background_env_def default_VideoConfig_def
        VIDEO_WIDTH_def VIDEO_HEIGHT_def)
  from assemble_video_empty_input [of no_background_env default_VideoConfig example_script None]
    h bg
  show ?thesis by blast
qed

lemma segment_step_Inr_indep:
  assumes "segment_step e cfg script m st seg = Inr s1"
    and "audio_clips st = audio_clips st1" "text_clips st = text_clips st1"
    and "current_time st = current_time st1"
  shows "\<exists>s2. segment_step e cfg script m1 st1 seg = Inr s2
           \<and> audio_clips s1 = audio_clips s2 \<and> text_clips s1 = text_clips s2
           \<and> current_time s1 = current_time s2"
  using assms by (auto simp: segment_step_def split: sum.splits option.splits)

lemma assemble_loop_Inr_indep:
  assumes "assemble_loop e cfg script m st segs = Inr s1"
    and "audio_clips st = audio_clips st1" "text_clips st = text_clips st1"
    and "current_time st = current_time st1"
  shows "\<exists>s2. assemble_loop e cfg script m1 st1 segs = Inr s2
           \<and> audio_clips s1 = audio_clips s2 \<and> text_clips s1 = text_clips s2"
  using assms
proof (induction segs arbitrary: st st1)
  case Nil
  then show ?case by simp
next
  case (Cons seg segs)
  from Cons.prems(1) obtain u where
    step: "segment_step e cfg script m st seg = Inr u"
    and rest: "assemble_loop e cfg script m u segs = Inr s1"
    by (auto split: sum.splits)
  from segment_step_Inr_indep [OF step Cons.prems(2-4), of m1] obtain u1 where
    u1: "segment_step e cfg script m1 st1 seg = Inr u1"
      "audio_clips u = audio_clips u1" "text_clips u = text_clips u1"
      "current_time u = current_time u1"
    by blast
  from Cons.IH [OF rest u1(2-4)] u1(1) show ?case by simp
qed

lemma assemble_video_error_mono:
  assumes "assemble_video e cfg script segs chars = Inl err"
  shows "assemble_video e cfg script segs chars1 = Inl err"
proof -
  let ?init = "\<lparr>audio_clips = [], text_clips = [], character_clips = [], current_time = 0\<rparr>"
  let ?m = "build_char_video_map chars" and ?m1 = "build_char_video_map chars1"
  from assms [unfolded assemble_video_error_iff]
  consider (bg) "get_background_clip e cfg (total_duration segs) = Inl err"
    | (loop) bg where "get_background_clip e cfg (total_duration segs) = Inr bg"
        "assemble_loop e cfg script ?m ?init segs = Inl err"
    | (audio) bg st where "get_background_clip e cfg (total_duration segs) = Inr bg"
        "assemble_loop e cfg script ?m ?init segs = Inr st"
        "\<not> CompositeAudioClip_ok e (audio_clips st)" "err = ValueError"
    | (export) bg st where "get_background_clip e cfg (total_duration segs) = Inr bg"
        "assemble_loop e cfg script ?m ?init segs = Inr st"
        "CompositeAudioClip_ok e (audio_clips st)" "\<not> write_videofile_ok e"
        "err = WriteVideofileError"
    by blast
  then show ?thesis
  proof cases
    case bg
    then show ?thesis unfolding assemble_video_error_iff by simp
  next
    case loop
    from loop(2) have "assemble_loop e cfg script ?m1 ?init segs = Inl err"
      using assemble_loop_error_indep [of e cfg script ?m ?init segs err ?m1 ?init] by simp
    with loop(1) show ?thesis unfolding assemble_video_error_iff by blast
  next
    case audio
    from assemble_loop_Inr_indep [OF audio(2), of ?init ?m1] obtain s2 where
      "assemble_loop e cfg script ?m1 ?init segs = Inr s2" "audio_clips st = audio_clips s2"
      by auto
    with audio show ?thesis unfolding assemble_video_error_iff by auto
  next
    case export
    from assemble_loop_Inr_indep [OF export(2), of ?init ?m1] obtain s2 where
      "assemble_loop e cfg script ?m1 ?init segs = Inr s2" "audio_clips st = audio_clips s2"
      by auto
    with export show ?thesis unfolding assemble_video_error_iff by auto
  qed
qed

lemma create_text_clip_Inl:
  "create_text_clip e cfg body d ty v = Inl err \<Longrightarrow> err = TextClipError"
proof -
  obtain fs col pos mw where st: "text_style cfg ty v = (fs, col, pos, mw)"
    by (cases "text_style cfg ty v") auto
  show "create_text_clip e cfg body d ty v = Inl err \<Longrightarrow> err = TextClipError"
    unfolding create_text_clip_def st by (auto simp: Let_def split: if_splits)
qed

lemma create_text_clip_fallback:
  assumes "\<forall>r. tc_method r = ''caption'' \<longrightarrow> \<not> TextClip_ok e r"
    and "\<forall>r. tc_method r = ''label'' \<longrightarrow> TextClip_ok e r"
  shows "\<exists>c. create_text_clip e cfg body d ty v = Inr c \<and> tc_method c = ''label''
           \<and> tc_pos c = Single (Named ''center'')"
proof -
  obtain fs col pos mw where st: "text_style cfg ty v = (fs, col, pos, mw)"
    by (cases "text_style cfg ty v") auto
  show ?thesis
    unfolding create_text_clip_def st using assms by (simp add: Let_def)
qed

lemma create_text_clip_no_renderer:
  assumes "\<forall>r. \<not> TextClip_ok e r"
  shows "create_text_clip e cfg body d ty v = Inl TextClipError"
proof -
  obtain fs col pos mw where st: "text_style cfg ty v = (fs, col, pos, mw)"
    by (cases "text_style cfg ty v") auto
  show ?thesis
    unfolding create_text_clip_def st using assms by (simp add: Let_def)
qed

lemma segment_step_no_renderer:
  assumes "\<forall>r. \<not> TextClip_ok e r"
  shows "\<exists>err. segment_step e cfg script m st seg = Inl err"
  using create_text_clip_no_renderer [OF assms]
  by (simp add: segment_step_def split: sum.splits option.splits)

lemma assemble_video_no_renderer:
  assumes "\<forall>r. \<not> TextClip_ok e r" and "segs \<noteq> []"
  shows "\<exists>err. assemble_video e cfg script segs chars = Inl err"
proof -
  from assms(2) obtain seg rest where segs: "segs = seg # rest" by (cases segs) auto
  obtain err where "segment_step e cfg script (build_char_video_map chars)
      \<lparr>audio_clips = [], text_clips = [], character_clips = [], current_time = 0\<rparr> seg
      = Inl err"
    using segment_step_no_renderer [OF assms(1)] by blast
  then have "assemble_loop e cfg script (build_char_video_map chars)
      \<lparr>audio_clips = [], text_clips = [], character_clips = [], current_time = 0\<rparr> segs
      = Inl err"
    by (simp add: segs)
  then show ?thesis
    by (cases "get_background_clip e cfg (total_duration segs)")
      (simp_all add: assemble_video_def Let_def)
qed

text \<open>
  C2 (as amended). An exception raised while loading or transforming the background
  leaves \<open>assemble_video\<close> unchanged. A character video that cannot be opened yields no
  clip, a segment whose character clip could not be made gets no overlay, and whether
  \<open>assemble_video\<close> raises, and what, does not depend on the character videos at all.
  A caption raises only TextClipError; a caption that was made is the styled one or the
  plain centred label, and when the styled renderer fails while labels can be drawn the
  plain label is returned. When no text can be drawn at all, a run with at least one
  segment raises.
\<close>

theorem assembly_failure_policy:
  "(get_background_clip e cfg (total_duration segs) = Inl err \<longrightarrow>
      assemble_video e cfg script segs chars = Inl err)
   \<and> (VideoFileClip e p = None \<longrightarrow> create_character_clip e cfg p d t = None)
   \<and> (m (segment_index seg) = Some cv
        \<and> create_character_clip e cfg (video_path cv) (duration seg) t = None \<longrightarrow>
      character_overlay e cfg m seg t = [])
   \<and> (assemble_video e cfg script segs chars = Inl err \<longleftrightarrow>
      assemble_video e cfg script segs None = Inl err)
   \<and> (create_text_clip e cfg body d ty v = Inl err \<longrightarrow> err = TextClipError)
   \<and> (create_text_clip e cfg body d ty v = Inr c \<longrightarrow>
      tc_method c = ''caption''
      \<or> tc_method c = ''label'' \<and> tc_pos c = Single (Named ''center''))
   \<and> ((\<forall>r. tc_method r = ''caption'' \<longrightarrow> \<not> TextClip_ok e r)
        \<and> (\<forall>r. tc_method r = ''label'' \<longrightarrow> TextClip_ok e r) \<longrightarrow>
      (\<exists>c. create_text_clip e cfg body d ty v = Inr c \<and> tc_method c = ''label''
         \<and> tc_pos c = Single (Named ''center'')))
   \<and> ((\<forall>r. \<not> TextClip_ok e r) \<and> segs \<noteq> [] \<longrightarrow>
      (\<exists>err. assemble_video e cfg script segs chars = Inl err))"
proof (intro conjI impI)
  assume "get_background_clip e cfg (total_duration segs) = Inl err"
  then show "assemble_video e cfg script segs chars = Inl err"
    by (simp add: assemble_video_def Let_def)
next
  assume "VideoFileClip e p = None"
  then show "create_character_clip e cfg p d t = None"
    by (simp add: create_character_clip_def)
next
  assume "m (segment_index seg) = Some cv
      \<and> create_character_clip e cfg (video_path cv) (duration seg) t = None"
  then show "character_overlay e cfg m seg t = []"
    by (simp add: character_overlay_def)
next
  show "assemble_video e cfg script segs chars = Inl err \<longleftrightarrow>
      assemble_video e cfg script segs None = Inl err"
    using assemble_video_error_mono [of e cfg script segs chars err None]
      assemble_video_error_mono [of e cfg script segs None err chars]
    by blast
next
  assume "create_text_clip e cfg body d ty v = Inl err"
  then show "err = TextClipError" by (rule create_text_clip_Inl)
next
  assume "create_text_clip e cfg body d ty v = Inr c"
  from create_text_clip_Inr [OF this]
  show "tc_method c = ''caption''
      \<or> tc_method c = ''label'' \<and> tc_pos c = Single (Named ''center'')"
    by blast
next
  assume "(\<forall>r. tc_method r = ''caption'' \<longrightarrow> \<not> TextClip_ok e r)
        \<and> (\<forall>r. tc_method r = ''label'' \<longrightarrow> TextClip_ok e r)"
  then show "\<exists>c. create_text_clip e cfg body d ty v = Inr c \<and> tc_method c = ''label''
         \<and> tc_pos c = Single (Named ''center'')"
    using create_text_clip_fallback by blast
next
  assume "(\<forall>r. \<not> TextClip_ok e r) \<and> segs \<noteq> []"
  then show "\<exists>err. assemble_video e cfg script segs chars = Inl err"
    using assemble_video_no_renderer by blast
qed

text \<open>
  The claim as stated fails: in a run where the character video of the commentary segment
  cannot be opened and the styled caption cannot be drawn, \<open>assemble_video\<close> returns,
  having written a composite without character layer and with the plain label.
\<close>

theorem assembly_failure_policy_counterexample:
  "build_char_video_map (Some example_characters) 2 = Some (example_characters ! 1)
   \<and> video_path (example_characters ! 1) = ''character_b.mp4''
   \<and> VideoFileClip faulty_env ''character_b.mp4'' = None
   \<and> assemble_video faulty_env default_VideoConfig example_script commentary_audio
        (Some example_characters) = Inr faulty_run_composite"
proof -
  have "build_char_video_map (Some example_characters) 2 = Some (example_characters ! 1)"
    by (simp add: build_char_video_map_def example_characters_def)
  moreover have "video_path (example_characters ! 1) = ''character_b.mp4''"
    by (simp add: example_characters_def)
  moreover have "VideoFileClip faulty_env ''character_b.mp4'' = None"
    by (simp add: faulty_env_def)
  moreover have "assemble_video faulty_env default_VideoConfig example_script commentary_audio
        (Some example_characters) = Inr faulty_run_composite"
    by code_simp
  ultimately show ?thesis by blast
qed

theorem assembly_failure_policy_witness:
  "VideoFileClip faulty_env ''character_b.mp4'' = None
   \<and> create_character_clip faulty_env default_VideoConfig ''character_b.mp4'' 4 0 = None
   \<and> build_char_video_map (Some example_characters) (segment_index (hd commentary_audio))
        = Some (example_characters ! 1)
   \<and> character_overlay faulty_env default_VideoConfig
        (build_char_video_map (Some example_characters)) (hd commentary_audio) 0 = []
   \<and> get_background_clip unreadable_background_env default_VideoConfig
        (total_duration commentary_audio) = Inl (VideoFileError ''broken.mp4'')
   \<and> assemble_video unreadable_background_env default_VideoConfig example_script
        commentary_audio (Some example_characters) = Inl (VideoFileError ''broken.mp4'')
   \<and> (\<exists>c. create_text_clip faulty_env default_VideoConfig ''Wow'' 4 ''commentary''
              ''commentator'' = Inr c
          \<and> tc_method c = ''label'' \<and> tc_pos c = Single (Named ''center''))
   \<and> commentary_audio \<noteq> []
   \<and> create_text_clip mute_env default_VideoConfig ''Wow'' 4 ''commentary'' ''commentator''
        = Inl TextClipError
   \<and> (\<exists>err. assemble_video mute_env default_VideoConfig example_script commentary_audio
          (Some example_characters) = Inl err)"
proof -
  have v: "VideoFileClip faulty_env ''character_b.mp4'' = None"
    by (simp add: faulty_env_def)
  have m: "build_char_video_map (Some example_characters) (segment_index (hd commentary_audio))
      = Some (example_characters ! 1)"
    by (simp add: build_char_video_map_def example_characters_def commentary_audio_def)
  have vp: "video_path (example_characters ! 1) = ''character_b.mp4''"
    "duration (hd commentary_audio) = 4"
    by (simp_all add: example_characters_def commentary_audio_def)
  have bg: "get_background_clip unreadable_background_env default_VideoConfig
        (total_duration commentary_audio) = Inl (VideoFileError ''broken.mp4'')"
    by (simp add: get_background_clip_def unreadable_background_env_def random_choice_def)
  have t: "(\<forall>r. tc_method r = ''caption'' \<longrightarrow> \<not> TextClip_ok faulty_env r)
        \<and> (\<forall>r. tc_method r = ''label'' \<longrightarrow> TextClip_ok faulty_env r)"
    by (simp add: faulty_env_def)
  have ne: "commentary_audio \<noteq> []" by (simp add: commentary_audio_def)
  have mute: "\<forall>r. \<not> TextClip_ok mute_env r" by (simp add: mute_env_def)
  have "case create_text_clip mute_env default_VideoConfig ''Wow'' 4 ''commentary''
            ''commentator'' of
          Inl err \<Rightarrow> True | Inr c \<Rightarrow> False"
    by code_simp
  then obtain err where
    e1: "create_text_clip mute_env default_VideoConfig ''Wow'' 4 ''commentary''
           ''commentator'' = Inl err"
    by (auto split: sum.splits)
  note th_faulty = assembly_failure_policy [where e = faulty_env and cfg = default_VideoConfig
      and p = "''character_b.mp4''" and d = 4 and t = 0 and body = "''Wow''"
      and ty = "''commentary''" and v = "''commentator''"
      and m = "build_char_video_map (Some example_characters)" and seg = "hd commentary_audio"
      and cv = "example_characters ! 1"]
  from th_faulty v have a: "create_character_clip faulty_env default_VideoConfig
      ''character_b.mp4'' 4 0 = None"
    by blast
  from th_faulty m a vp have ov: "character_overlay faulty_env default_VideoConfig
        (build_char_video_map (Some example_characters)) (hd commentary_audio) 0 = []"
    by simp
  from th_faulty t have c: "\<exists>c. create_text_clip faulty_env default_VideoConfig ''Wow'' 4
      ''commentary'' ''commentator'' = Inr c
      \<and> tc_method c = ''label'' \<and> tc_pos c = Single (Named ''center'')"
    by blast
  from assembly_failure_policy [where e = unreadable_background_env
      and cfg = default_VideoConfig and segs = commentary_audio
      and err = "VideoFileError ''broken.mp4''" and script = example_script
      and chars = "Some example_characters"] bg
  have b: "assemble_video unreadable_background_env default_VideoConfig example_script
        commentary_audio (Some example_characters) = Inl (VideoFileError ''broken.mp4'')"
    by blast
  note th_mute = assembly_failure_policy [where e = mute_env and cfg = default_VideoConfig
      and segs = commentary_audio and script = example_script
      and chars = "Some example_characters" and body = "''Wow''" and d = 4
      and ty = "''commentary''" and v = "''commentator''" and err = err]
  from th_mute e1 have e2: "err = TextClipError" by blast
  from th_mute mute ne have ab: "\<exists>err. assemble_video mute_env default_VideoConfig
      example_script commentary_audio (Some example_characters) = Inl err"
    by blast
  from v a m ov bg b c ne e1 e2 ab show ?thesis by blast
qed

end
